theory Spec2Isabelle
  imports Main
begin

section \<open>Data model\<close>

text \<open>
  The program keeps its configuration in a Python dict with the keys \<open>shelly_ip\<close>,
  \<open>autostart\<close>, \<open>minimize_to_tray\<close> and \<open>hotkeys\<close>; every hotkey is a dict with the
  keys \<open>name\<close>, \<open>shortcut\<close>, \<open>endpoint\<close> and \<open>action\<close>. The development covers
  documents of this shape, the one the program itself writes: the four values of a hotkey
  are strings, the two options are booleans. Keys that the program does not use, and
  values of other types, are outside the model. The visibility of the window, the icon
  files and the notification of the first close are not modelled either.
\<close>

record hotkey =
  name :: string
  shortcut :: string
  endpoint :: string
  action :: string

record config =
  shelly_ip :: string
  autostart :: bool
  minimize_to_tray :: bool
  hotkeys :: "hotkey list"

text \<open>
  A \<open>QShortcut\<close> object: its key sequence, whether it is enabled, and the arguments
  \<open>(endpoint, action)\<close> that \<open>partial(self.toggle_shelly_device, ...)\<close> captured for
  its \<open>activated\<close> signal. The type \<open>'k\<close> is the toolkit's key sequence.
\<close>

record 'k qshortcut =
  key :: 'k
  enabled :: bool
  activated :: "string \<times> string"

text \<open>
  The entries of the tray menu. A device entry carries its label and the captured
  \<open>(endpoint, action)\<close>.
\<close>

datatype menu_action =
    ShowAction
  | Separator
  | DeviceAction string string string
  | QuitAction

record tray =
  visible :: bool
  context_menu :: "menu_action list"

datatype icon = Information | Warning | Critical

text \<open>\<open>tray_icon.showMessage(title, text, icon, msecs)\<close> and \<open>QMessageBox.<icon>(self, title, text)\<close>.\<close>

datatype notification = ShowMessage string string icon nat

datatype dialog = MessageBox icon string string

text \<open>\<open>requests.get(url, timeout=...)\<close>: either a response with a status code, or an exception.\<close>

datatype request = GET string "nat option"

datatype http_result = Status nat | RequestException string

text \<open>
  The configuration file: absent, present but not readable (\<open>open\<close> raises), or present
  with a text. Writing either succeeds or raises with a message, leaving the file in some
  state.
\<close>

datatype file_state = Missing | Unreadable | Contents string

datatype write_result = Written | WriteFailed string file_state

text \<open>
  The window. \<open>shortcuts\<close> is \<open>self.shortcuts\<close> and \<open>tray_icon\<close> is \<open>self.tray_icon\<close>
  (\<open>None\<close> before the first \<open>setup_tray\<close>). Every \<open>QShortcut\<close> and every
  \<open>QSystemTrayIcon\<close> is created with the window as its parent, so it lives as long as the
  window does: \<open>released_shortcuts\<close> and \<open>released_tray_icons\<close> hold the objects that
  the two attributes no longer refer to. A tray icon keeps the menu it was given, and the
  actions of the menu have the window as their parent too. \<open>hotkeys_table\<close> holds the text of the items of
  the table, row by row. \<open>notifications\<close>, \<open>dialogs\<close> and \<open>sent\<close> record what was
  shown and which requests were issued, oldest first.
\<close>

record 'k app =
  config :: config
  ip_input :: string
  autostart_checkbox :: bool
  minimize_to_tray_checkbox :: bool
  hotkeys_table :: "string list list"
  shortcuts :: "'k qshortcut list"
  released_shortcuts :: "'k qshortcut list"
  tray_icon :: "tray option"
  released_tray_icons :: "tray list"
  notifications :: "notification list"
  dialogs :: "dialog list"
  sent :: "request list"
  disk :: file_state

section \<open>Configuration store\<close>

definition default_config :: config where
  "default_config =
     \<lparr>shelly_ip = ''192.168.1.100'',
      autostart = False,
      minimize_to_tray = True,
      hotkeys = [\<lparr>name = ''Toggle Light'', shortcut = ''Ctrl+Alt+L'',
                  endpoint = ''relay/0'', action = ''toggle''\<rparr>]\<rparr>"

text \<open>
  \<open>load_config\<close>. The decoder \<open>json_load\<close> is the library's: \<open>None\<close> stands for a
  raised exception.
\<close>

definition load_config :: "(string \<Rightarrow> config option) \<Rightarrow> file_state \<Rightarrow> config" where
  "load_config json_load f =
     (case f of
        Missing \<Rightarrow> default_config
      | Unreadable \<Rightarrow> default_config
      | Contents text \<Rightarrow>
          (case json_load text of
             Some c \<Rightarrow> c
           | None \<Rightarrow> default_config))"

text \<open>
  \<open>save_config\<close>. The encoder \<open>json_dump\<close> is the library's, called with \<open>indent=2\<close>;
  \<open>open_w\<close> is the attempt to write a text to the file in its present state.
\<close>

definition save_config ::
  "(config \<Rightarrow> nat \<Rightarrow> string) \<Rightarrow> (file_state \<Rightarrow> string \<Rightarrow> write_result) \<Rightarrow> 'k app \<Rightarrow> 'k app" where
  "save_config json_dump open_w s =
     (case open_w (disk s) (json_dump (config s) 2) of
        Written \<Rightarrow> s\<lparr>disk := Contents (json_dump (config s) 2)\<rparr>
      | WriteFailed e d \<Rightarrow>
          s\<lparr>disk := d,
            dialogs := dialogs s @ [MessageBox Warning ''Error'' (''Failed to save configuration: '' @ e)]\<rparr>)"

section \<open>Hotkey registry and tray\<close>

definition update_hotkeys_table :: "'k app \<Rightarrow> 'k app" where
  "update_hotkeys_table s =
     s\<lparr>hotkeys_table := map (\<lambda>h. [name h, shortcut h, endpoint h, action h]) (hotkeys (config s))\<rparr>"

text \<open>The loop \<open>for hotkey in self.config["hotkeys"]\<close> of \<open>setup_shortcuts\<close>.\<close>

fun create_shortcuts :: "(string \<Rightarrow> 'k) \<Rightarrow> hotkey list \<Rightarrow> 'k qshortcut list \<Rightarrow> 'k qshortcut list" where
  "create_shortcuts QKeySequence [] acc = acc"
| "create_shortcuts QKeySequence (h # hs) acc =
     create_shortcuts QKeySequence hs
       (acc @ [\<lparr>key = QKeySequence (shortcut h), enabled = True,
                 activated = (endpoint h, action h)\<rparr>])"

text \<open>The loop \<open>for shortcut in self.shortcuts: shortcut.setEnabled(False)\<close>.\<close>

fun disable_shortcuts :: "'k qshortcut list \<Rightarrow> 'k qshortcut list" where
  "disable_shortcuts [] = []"
| "disable_shortcuts (q # qs) = q\<lparr>enabled := False\<rparr> # disable_shortcuts qs"

definition setup_shortcuts :: "(string \<Rightarrow> 'k) \<Rightarrow> 'k app \<Rightarrow> 'k app" where
  "setup_shortcuts QKeySequence s =
     s\<lparr>released_shortcuts := released_shortcuts s @ disable_shortcuts (shortcuts s),
       shortcuts := create_shortcuts QKeySequence (hotkeys (config s)) []\<rparr>"

text \<open>The loop of \<open>setup_tray\<close> that adds one menu entry per hotkey.\<close>

fun device_actions :: "hotkey list \<Rightarrow> menu_action list \<Rightarrow> menu_action list" where
  "device_actions [] m = m"
| "device_actions (h # hs) m =
     device_actions hs
       (m @ [DeviceAction (name h @ '' ('' @ action h @ '')'') (endpoint h) (action h)])"

text \<open>
  \<open>setup_tray\<close> creates a new tray icon and a new menu, shows the icon and stores it in
  \<open>self.tray_icon\<close>. It does nothing to the icon that \<open>self.tray_icon\<close> referred to
  before.
\<close>

definition setup_tray :: "'k app \<Rightarrow> 'k app" where
  "setup_tray s =
     s\<lparr>released_tray_icons :=
         released_tray_icons s @ (case tray_icon s of None \<Rightarrow> [] | Some t \<Rightarrow> [t]),
       tray_icon :=
         Some \<lparr>visible = True,
               context_menu =
                 device_actions (hotkeys (config s)) [ShowAction, Separator]
                   @ [Separator, QuitAction]\<rparr>\<rparr>"

definition new_hotkey :: hotkey where
  "new_hotkey = \<lparr>name = ''New Hotkey'', shortcut = ''Ctrl+Alt+N'',
                 endpoint = ''relay/0'', action = ''toggle''\<rparr>"

definition add_hotkey :: "(string \<Rightarrow> 'k) \<Rightarrow> 'k app \<Rightarrow> 'k app" where
  "add_hotkey QKeySequence s =
     setup_tray (setup_shortcuts QKeySequence (update_hotkeys_table
       (s\<lparr>config := (config s)\<lparr>hotkeys := hotkeys (config s) @ [new_hotkey]\<rparr>\<rparr>)))"

text \<open>\<open>list.pop(row)\<close> for \<open>0 \<le> row < len\<close>; the caller checks the range.\<close>

definition pop :: "nat \<Rightarrow> 'a list \<Rightarrow> 'a list" where
  "pop row xs = take row xs @ drop (Suc row) xs"

text \<open>
  \<open>remove_hotkey\<close>. \<open>selected_rows\<close> is the list of the rows of
  \<open>self.hotkeys_table.selectedIndexes()\<close>.
\<close>

definition remove_hotkey :: "(string \<Rightarrow> 'k) \<Rightarrow> 'k app \<Rightarrow> nat list \<Rightarrow> 'k app" where
  "remove_hotkey QKeySequence s selected_rows =
     (case selected_rows of
        [] \<Rightarrow> s
      | row # _ \<Rightarrow>
          if row < length (hotkeys (config s))
          then setup_tray (setup_shortcuts QKeySequence (update_hotkeys_table
                 (s\<lparr>config := (config s)\<lparr>hotkeys := pop row (hotkeys (config s))\<rparr>\<rparr>)))
          else s)"

text \<open>\<open>self.hotkeys_table.item(row, column)\<close>: \<open>None\<close> where the table has no item.\<close>

definition item :: "string list list \<Rightarrow> nat \<Rightarrow> nat \<Rightarrow> string option" where
  "item t row column =
     (if row < length t \<and> column < length (t ! row) then Some (t ! row ! column) else None)"

text \<open>
  \<open>hotkey[fields[column]] = text\<close> with \<open>fields = ["name", "shortcut", "endpoint", "action"]\<close>;
  \<open>None\<close> is the IndexError of \<open>fields[column]\<close>.
\<close>

definition set_field :: "nat \<Rightarrow> string \<Rightarrow> hotkey \<Rightarrow> hotkey option" where
  "set_field column text h =
     (if column = 0 then Some (h\<lparr>name := text\<rparr>)
      else if column = 1 then Some (h\<lparr>shortcut := text\<rparr>)
      else if column = 2 then Some (h\<lparr>endpoint := text\<rparr>)
      else if column = 3 then Some (h\<lparr>action := text\<rparr>)
      else None)"

text \<open>
  \<open>hotkey_cell_changed\<close>. When \<open>fields[column]\<close> raises, nothing has been changed yet and
  the handler is left.
\<close>

definition hotkey_cell_changed :: "(string \<Rightarrow> 'k) \<Rightarrow> 'k app \<Rightarrow> nat \<Rightarrow> nat \<Rightarrow> 'k app" where
  "hotkey_cell_changed QKeySequence s row column =
     (if row \<ge> length (hotkeys (config s)) then s
      else case item (hotkeys_table s) row column of
        None \<Rightarrow> s
      | Some text \<Rightarrow>
          (case set_field column text (hotkeys (config s) ! row) of
             None \<Rightarrow> s
           | Some h \<Rightarrow>
               setup_tray (setup_shortcuts QKeySequence
                 (s\<lparr>config := (config s)\<lparr>hotkeys := (hotkeys (config s))[row := h]\<rparr>\<rparr>))))"

section \<open>Device client\<close>

text \<open>The decimal text of a status code, as an f-string prints it.\<close>

definition digit_char :: "nat \<Rightarrow> char" where
  "digit_char d = char_of (48 + d)"

fun str_nat :: "nat \<Rightarrow> string" where
  "str_nat n = (if n < 10 then [digit_char n] else str_nat (n div 10) @ [digit_char (n mod 10)])"

declare str_nat.simps [simp del]

definition show_message :: "string \<Rightarrow> icon \<Rightarrow> nat \<Rightarrow> 'k app \<Rightarrow> 'k app" where
  "show_message text ic ms s =
     s\<lparr>notifications := notifications s @ [ShowMessage ''Shelly Controller'' text ic ms]\<rparr>"

text \<open>
  \<open>toggle_shelly_device\<close>. \<open>requests_get\<close> is the network: what \<open>requests.get\<close> does
  with a request. The control path passes no timeout.
\<close>

definition toggle_shelly_device ::
  "(request \<Rightarrow> http_result) \<Rightarrow> 'k app \<Rightarrow> string \<Rightarrow> string \<Rightarrow> 'k app" where
  "toggle_shelly_device requests_get s ep act =
     (let ip = shelly_ip (config s);
          url = ''http://'' @ ip @ ''/'' @ ep
      in case (if act = ''toggle'' then Some (GET (url @ ''?turn=toggle'') None)
               else if act \<in> set [''on'', ''off''] then Some (GET (url @ ''?turn='' @ act) None)
               else None) of
           None \<Rightarrow> show_message (''Unknown action: '' @ act) Warning 3000 s
         | Some r \<Rightarrow>
             (let s' = s\<lparr>sent := sent s @ [r]\<rparr>
              in case requests_get r of
                   Status code \<Rightarrow>
                     if code = 200
                     then show_message (''Successfully toggled: '' @ ep) Information 2000 s'
                     else show_message (''Error: Status code '' @ str_nat code) Warning 3000 s'
                 | RequestException e \<Rightarrow>
                     show_message (''Failed: '' @ e) Critical 3000 s'))"

section \<open>Connectivity probe\<close>

text \<open>The loop \<open>for endpoint in endpoints\<close> of \<open>test_connection\<close>, with its final warning.\<close>

fun test_connection_loop ::
  "(request \<Rightarrow> http_result) \<Rightarrow> string \<Rightarrow> string list \<Rightarrow> 'k app \<Rightarrow> 'k app" where
  "test_connection_loop requests_get ip [] s =
     s\<lparr>dialogs := dialogs s @ [MessageBox Warning ''Error'' ''Failed to connect to the Shelly device'']\<rparr>"
| "test_connection_loop requests_get ip (ep # eps) s =
     (let r = GET (''http://'' @ ip @ ep) (Some 3);
          s' = s\<lparr>sent := sent s @ [r]\<rparr>
      in case requests_get r of
           Status code \<Rightarrow>
             if code = 200
             then s'\<lparr>dialogs := dialogs s' @
                      [MessageBox Information ''Success'' ''Successfully connected to Shelly device!'']\<rparr>
             else test_connection_loop requests_get ip eps s'
         | RequestException e \<Rightarrow> test_connection_loop requests_get ip eps s')"

definition endpoints :: "string list" where
  "endpoints = [''/shelly'', ''/relay/0'', ''/'']"

definition test_connection :: "(request \<Rightarrow> http_result) \<Rightarrow> 'k app \<Rightarrow> 'k app" where
  "test_connection requests_get s =
     test_connection_loop requests_get (shelly_ip (config s)) endpoints s"

section \<open>Settings\<close>

text \<open>
  \<open>configure_autostart\<close> registers or unregisters the program with the platform;
  \<open>platform_autostart\<close> gives the message of the exception when that raises.
\<close>

definition configure_autostart :: "(bool \<Rightarrow> string option) \<Rightarrow> 'k app \<Rightarrow> 'k app" where
  "configure_autostart platform_autostart s =
     (case platform_autostart (autostart (config s)) of
        None \<Rightarrow> s
      | Some e \<Rightarrow>
          s\<lparr>dialogs := dialogs s @ [MessageBox Warning ''Error'' (''Failed to configure autostart: '' @ e)]\<rparr>)"

definition save_settings ::
  "(config \<Rightarrow> nat \<Rightarrow> string) \<Rightarrow> (file_state \<Rightarrow> string \<Rightarrow> write_result) \<Rightarrow>
     (bool \<Rightarrow> string option) \<Rightarrow> 'k app \<Rightarrow> 'k app" where
  "save_settings json_dump open_w platform_autostart s =
     (let s1 = s\<lparr>config := (config s)\<lparr>shelly_ip := ip_input s,
                                      autostart := autostart_checkbox s,
                                      minimize_to_tray := minimize_to_tray_checkbox s\<rparr>\<rparr>;
          s2 = save_config json_dump open_w s1;
          s3 = configure_autostart platform_autostart s2
      in s3\<lparr>dialogs := dialogs s3 @ [MessageBox Information ''Success'' ''Settings saved!'']\<rparr>)"

text \<open>The handler of \<open>ip_input.textChanged\<close>: the field holds the new text already.\<close>

definition ip_text_changed :: "'k app \<Rightarrow> 'k app" where
  "ip_text_changed s = s\<lparr>config := (config s)\<lparr>shelly_ip := ip_input s\<rparr>\<rparr>"

text \<open>\<open>toggle_autostart\<close> and \<open>toggle_minimize_to_tray\<close>; \<open>checked\<close> is \<open>state == Qt.Checked\<close>.\<close>

definition toggle_autostart :: "'k app \<Rightarrow> bool \<Rightarrow> 'k app" where
  "toggle_autostart s checked = s\<lparr>config := (config s)\<lparr>autostart := checked\<rparr>\<rparr>"

definition toggle_minimize_to_tray :: "'k app \<Rightarrow> bool \<Rightarrow> 'k app" where
  "toggle_minimize_to_tray s checked = s\<lparr>config := (config s)\<lparr>minimize_to_tray := checked\<rparr>\<rparr>"

section \<open>The program\<close>

text \<open>
  The constructor: \<open>load_config\<close>, \<open>init_ui\<close> (the widgets take their values from the
  configuration and the table is filled), \<open>setup_shortcuts\<close>, \<open>setup_tray\<close>.
\<close>

definition init_ui :: "'k app \<Rightarrow> 'k app" where
  "init_ui s =
     update_hotkeys_table
       (s\<lparr>ip_input := shelly_ip (config s),
          autostart_checkbox := autostart (config s),
          minimize_to_tray_checkbox := minimize_to_tray (config s)\<rparr>)"

definition init :: "(string \<Rightarrow> 'k) \<Rightarrow> (string \<Rightarrow> config option) \<Rightarrow> file_state \<Rightarrow> 'k app" where
  "init QKeySequence json_load f =
     setup_tray (setup_shortcuts QKeySequence (init_ui
       \<lparr>config = load_config json_load f,
        ip_input = [],
        autostart_checkbox = False,
        minimize_to_tray_checkbox = False,
        hotkeys_table = [],
        shortcuts = [],
        released_shortcuts = [],
        tray_icon = None,
        released_tray_icons = [],
        notifications = [],
        dialogs = [],
        sent = [],
        disk = f\<rparr>))"

text \<open>
  What the user can do to the running program. Editing a widget changes the widget first
  and then calls the connected handler. A shortcut object, numbered among the shortcut
  objects of the window, fires when it is enabled; an entry of the menu of a tray icon,
  numbered among the tray icons of the window, can be chosen when the icon is visible. Both
  call \<open>toggle_shelly_device\<close> with the arguments they captured. A click on a
  checkbox gives the new state of the box and what the handler's comparison
  \<open>state == Qt.Checked\<close> evaluates to. Showing and hiding the window and quitting are
  not part of the model.
\<close>

datatype event =
    AddHotkey
  | RemoveHotkey "nat list"
  | EditCell nat nat string
  | EditIp string
  | CheckAutostart bool bool
  | CheckMinimize bool bool
  | ActivateShortcut nat
  | TriggerMenu nat nat
  | TestConnection
  | SaveSettings

text \<open>The environment of the program: the toolkit, the network, the library and the platform.\<close>

record 'k env =
  toolkit_QKeySequence :: "string \<Rightarrow> 'k"
  net_requests_get :: "request \<Rightarrow> http_result"
  lib_json_load :: "string \<Rightarrow> config option"
  lib_json_dump :: "config \<Rightarrow> nat \<Rightarrow> string"
  fs_open_w :: "file_state \<Rightarrow> string \<Rightarrow> write_result"
  os_autostart :: "bool \<Rightarrow> string option"

text \<open>The shortcut objects and the tray icons of the window, oldest first.\<close>

definition window_shortcuts :: "'k app \<Rightarrow> 'k qshortcut list" where
  "window_shortcuts s = released_shortcuts s @ shortcuts s"

definition window_tray_icons :: "'k app \<Rightarrow> tray list" where
  "window_tray_icons s =
     released_tray_icons s @ (case tray_icon s of None \<Rightarrow> [] | Some t \<Rightarrow> [t])"

definition set_item :: "string list list \<Rightarrow> nat \<Rightarrow> nat \<Rightarrow> string \<Rightarrow> string list list" where
  "set_item t row column text =
     (if row < length t \<and> column < length (t ! row) then t[row := (t ! row)[column := text]] else t)"

fun step :: "'k env \<Rightarrow> 'k app \<Rightarrow> event \<Rightarrow> 'k app" where
  "step E s AddHotkey = add_hotkey (toolkit_QKeySequence E) s"
| "step E s (RemoveHotkey selected_rows) = remove_hotkey (toolkit_QKeySequence E) s selected_rows"
| "step E s (EditCell row column text) =
     (if item (hotkeys_table s) row column = None then s
      else hotkey_cell_changed (toolkit_QKeySequence E)
             (s\<lparr>hotkeys_table := set_item (hotkeys_table s) row column text\<rparr>) row column)"
| "step E s (EditIp text) = ip_text_changed (s\<lparr>ip_input := text\<rparr>)"
| "step E s (CheckAutostart b checked) = toggle_autostart (s\<lparr>autostart_checkbox := b\<rparr>) checked"
| "step E s (CheckMinimize b checked) =
     toggle_minimize_to_tray (s\<lparr>minimize_to_tray_checkbox := b\<rparr>) checked"
| "step E s (ActivateShortcut n) =
     (let qs = window_shortcuts s
      in if n < length qs \<and> enabled (qs ! n)
         then toggle_shelly_device (net_requests_get E) s (fst (activated (qs ! n))) (snd (activated (qs ! n)))
         else s)"
| "step E s (TriggerMenu n m) =
     (let ts = window_tray_icons s
      in if n < length ts \<and> visible (ts ! n) \<and> m < length (context_menu (ts ! n))
         then (case context_menu (ts ! n) ! m of
                 DeviceAction label ep act \<Rightarrow> toggle_shelly_device (net_requests_get E) s ep act
               | _ \<Rightarrow> s)
         else s)"
| "step E s TestConnection = test_connection (net_requests_get E) s"
| "step E s SaveSettings = save_settings (lib_json_dump E) (fs_open_w E) (os_autostart E) s"

text \<open>The program started on a file and driven through a list of events.\<close>

definition run :: "'k env \<Rightarrow> file_state \<Rightarrow> event list \<Rightarrow> 'k app" where
  "run E f evs = foldl (step E) (init (toolkit_QKeySequence E) (lib_json_load E) f) evs"

section \<open>What holds in every state of a run\<close>

text \<open>
  \<open>self.shortcuts\<close> holds one enabled shortcut per hotkey of the configuration, in
  order; every shortcut object that \<open>self.shortcuts\<close> no longer refers to is disabled;
  and the address in the configuration is the text of the IP field.
\<close>

definition registry_inv :: "(string \<Rightarrow> 'k) \<Rightarrow> 'k app \<Rightarrow> bool" where
  "registry_inv k s \<longleftrightarrow>
     shortcuts s = create_shortcuts k (hotkeys (config s)) [] \<and>
     list_all (\<lambda>q. \<not> enabled q) (released_shortcuts s) \<and>
     ip_input s = shelly_ip (config s)"

section \<open>An environment to run the program in\<close>

text \<open>
  The program is run on concrete inputs in an environment whose encoder and decoder follow
  Python's \<open>json\<close> module on configuration documents. The encoder writes what
  \<open>json.dump(config, f, indent=...)\<close> writes for a configuration: members in the order
  of the dict, one per line, \<open>", "\<close> and \<open>": "\<close> as separators, every character
  outside the printable ASCII range escaped. The characters of a string are code points
  below 256.
\<close>

definition hex_char :: "nat \<Rightarrow> char" where
  "hex_char d = (if d < 10 then char_of (48 + d) else char_of (87 + d))"

definition json_escape :: "char \<Rightarrow> string" where
  "json_escape c =
     (if c = CHR 0x22 then [CHR 0x5C, CHR 0x22]
      else if c = CHR 0x5C then [CHR 0x5C, CHR 0x5C]
      else if c = CHR 0x0A then [CHR 0x5C, CHR ''n'']
      else if c = CHR 0x0D then [CHR 0x5C, CHR ''r'']
      else if c = CHR 0x09 then [CHR 0x5C, CHR ''t'']
      else if c = CHR 0x08 then [CHR 0x5C, CHR ''b'']
      else if c = CHR 0x0C then [CHR 0x5C, CHR ''f'']
      else if (of_char c :: nat) < 32 \<or> (of_char c :: nat) > 126
      then [CHR 0x5C, CHR ''u'', CHR ''0'', CHR ''0'',
            hex_char ((of_char c :: nat) div 16), hex_char ((of_char c :: nat) mod 16)]
      else [c])"

definition json_string :: "string \<Rightarrow> string" where
  "json_string s = CHR 0x22 # concat (map json_escape s) @ [CHR 0x22]"

definition newline_indent :: "nat \<Rightarrow> nat \<Rightarrow> string" where
  "newline_indent indent level = CHR 0x0A # replicate (indent * level) CHR '' ''"

fun join :: "string \<Rightarrow> string list \<Rightarrow> string" where
  "join sep [] = []"
| "join sep [x] = x"
| "join sep (x # y # ys) = x @ sep @ join sep (y # ys)"

definition json_container :: "char \<Rightarrow> char \<Rightarrow> nat \<Rightarrow> nat \<Rightarrow> string list \<Rightarrow> string" where
  "json_container opening closing indent level xs =
     (if xs = [] then [opening, closing]
      else opening # newline_indent indent (Suc level)
             @ join (CHR '','' # newline_indent indent (Suc level)) xs
             @ newline_indent indent level @ [closing])"

definition json_member :: "string \<Rightarrow> string \<Rightarrow> string" where
  "json_member k v = json_string k @ '': '' @ v"

definition json_bool :: "bool \<Rightarrow> string" where
  "json_bool b = (if b then ''true'' else ''false'')"

definition json_hotkey :: "nat \<Rightarrow> nat \<Rightarrow> hotkey \<Rightarrow> string" where
  "json_hotkey indent level h =
     json_container CHR ''{'' CHR ''}'' indent level
       [json_member ''name'' (json_string (name h)),
        json_member ''shortcut'' (json_string (shortcut h)),
        json_member ''endpoint'' (json_string (endpoint h)),
        json_member ''action'' (json_string (action h))]"

definition json_dumps :: "config \<Rightarrow> nat \<Rightarrow> string" where
  "json_dumps c indent =
     json_container CHR ''{'' CHR ''}'' indent 0
       [json_member ''shelly_ip'' (json_string (shelly_ip c)),
        json_member ''autostart'' (json_bool (autostart c)),
        json_member ''minimize_to_tray'' (json_bool (minimize_to_tray c)),
        json_member ''hotkeys''
          (json_container CHR ''['' CHR '']'' indent 1 (map (json_hotkey indent 2) (hotkeys c)))]"

text \<open>
  The decoder reads a JSON text into a tree and the tree into a configuration. Numbers are
  scanned, not interpreted: no value of a configuration is a number. The fuel of the
  parser is the length of the text, one unit per nesting level and per element.
\<close>

datatype json =
    JNull
  | JBool bool
  | JNumber string
  | JString string
  | JArray "json list"
  | JObject "(string \<times> json) list"

definition is_ws :: "char \<Rightarrow> bool" where
  "is_ws c \<longleftrightarrow> c = CHR '' '' \<or> c = CHR 0x0A \<or> c = CHR 0x0D \<or> c = CHR 0x09"

definition skip_ws :: "string \<Rightarrow> string" where
  "skip_ws text = dropWhile is_ws text"

definition hex_value :: "char \<Rightarrow> nat option" where
  "hex_value c =
     (let n = (of_char c :: nat)
      in if 48 \<le> n \<and> n \<le> 57 then Some (n - 48)
         else if 97 \<le> n \<and> n \<le> 102 then Some (n - 87)
         else if 65 \<le> n \<and> n \<le> 70 then Some (n - 55)
         else None)"

definition unescape :: "char \<Rightarrow> char option" where
  "unescape e =
     (if e = CHR 0x22 then Some (CHR 0x22)
      else if e = CHR 0x5C then Some (CHR 0x5C)
      else if e = CHR ''/'' then Some (CHR ''/'')
      else if e = CHR ''n'' then Some (CHR 0x0A)
      else if e = CHR ''r'' then Some (CHR 0x0D)
      else if e = CHR ''t'' then Some (CHR 0x09)
      else if e = CHR ''b'' then Some (CHR 0x08)
      else if e = CHR ''f'' then Some (CHR 0x0C)
      else None)"

text \<open>The text after an opening quote, up to the closing one; \<open>acc\<close> is reversed.\<close>

fun parse_string :: "string \<Rightarrow> string \<Rightarrow> (string \<times> string) option" where
  "parse_string [] acc = None"
| "parse_string (c # cs) acc =
     (if c = CHR 0x22 then Some (rev acc, cs)
      else if c = CHR 0x5C then
        (case cs of
           [] \<Rightarrow> None
         | e # rest \<Rightarrow>
             if e = CHR ''u'' then
               (case rest of
                  h1 # h2 # h3 # h4 # rest' \<Rightarrow>
                    (case (hex_value h1, hex_value h2, hex_value h3, hex_value h4) of
                       (Some a, Some b, Some c', Some d) \<Rightarrow>
                         if a = 0 \<and> b = 0
                         then parse_string rest' (char_of (16 * c' + d) # acc)
                         else None
                     | _ \<Rightarrow> None)
                | _ \<Rightarrow> None)
             else
               (case unescape e of
                  Some x \<Rightarrow> parse_string rest (x # acc)
                | None \<Rightarrow> None))
      else if (of_char c :: nat) < 32 then None
      else parse_string cs (c # acc))"

definition is_number_char :: "char \<Rightarrow> bool" where
  "is_number_char c \<longleftrightarrow> c \<in> set ''+-.0123456789eE''"

fun strip_prefix :: "string \<Rightarrow> string \<Rightarrow> string option" where
  "strip_prefix [] text = Some text"
| "strip_prefix (p # ps) [] = None"
| "strip_prefix (p # ps) (c # cs) = (if p = c then strip_prefix ps cs else None)"

fun parse_value :: "nat \<Rightarrow> string \<Rightarrow> (json \<times> string) option"
  and parse_elements :: "nat \<Rightarrow> string \<Rightarrow> json list \<Rightarrow> (json \<times> string) option"
  and parse_members :: "nat \<Rightarrow> string \<Rightarrow> (string \<times> json) list \<Rightarrow> (json \<times> string) option"
where
  "parse_value 0 text = None"
| "parse_value (Suc n) text =
     (case skip_ws text of
        [] \<Rightarrow> None
      | c # cs \<Rightarrow>
          if c = CHR 0x22 then
            (case parse_string cs [] of
               Some (s, rest) \<Rightarrow> Some (JString s, rest)
             | None \<Rightarrow> None)
          else if c = CHR ''['' then
            (case skip_ws cs of
               [] \<Rightarrow> None
             | d # rest \<Rightarrow> if d = CHR '']'' then Some (JArray [], rest) else parse_elements n cs [])
          else if c = CHR ''{'' then
            (case skip_ws cs of
               [] \<Rightarrow> None
             | d # rest \<Rightarrow> if d = CHR ''}'' then Some (JObject [], rest) else parse_members n cs [])
          else if is_number_char c then
            Some (JNumber (takeWhile is_number_char (c # cs)), dropWhile is_number_char cs)
          else
            (case strip_prefix ''true'' (c # cs) of
               Some rest \<Rightarrow> Some (JBool True, rest)
             | None \<Rightarrow>
                 (case strip_prefix ''false'' (c # cs) of
                    Some rest \<Rightarrow> Some (JBool False, rest)
                  | None \<Rightarrow>
                      (case strip_prefix ''null'' (c # cs) of
                         Some rest \<Rightarrow> Some (JNull, rest)
                       | None \<Rightarrow> None))))"
| "parse_elements 0 text acc = None"
| "parse_elements (Suc n) text acc =
     (case parse_value n text of
        None \<Rightarrow> None
      | Some (v, rest) \<Rightarrow>
          (case skip_ws rest of
             [] \<Rightarrow> None
           | c # cs \<Rightarrow>
               if c = CHR '','' then parse_elements n cs (v # acc)
               else if c = CHR '']'' then Some (JArray (rev (v # acc)), cs)
               else None))"
| "parse_members 0 text acc = None"
| "parse_members (Suc n) text acc =
     (case skip_ws text of
        [] \<Rightarrow> None
      | q # qs \<Rightarrow>
          if q \<noteq> CHR 0x22 then None
          else
            (case parse_string qs [] of
               None \<Rightarrow> None
             | Some (k, rest) \<Rightarrow>
                 (case skip_ws rest of
                    [] \<Rightarrow> None
                  | c # cs \<Rightarrow>
                      if c \<noteq> CHR '':'' then None
                      else
                        (case parse_value n cs of
                           None \<Rightarrow> None
                         | Some (v, rest') \<Rightarrow>
                             (case skip_ws rest' of
                                [] \<Rightarrow> None
                              | d # ds \<Rightarrow>
                                  if d = CHR '','' then parse_members n ds ((k, v) # acc)
                                  else if d = CHR ''}'' then Some (JObject (rev ((k, v) # acc)), ds)
                                  else None)))))"

definition json_loads_tree :: "string \<Rightarrow> json option" where
  "json_loads_tree text =
     (case parse_value (length text) text of
        None \<Rightarrow> None
      | Some (v, rest) \<Rightarrow> if skip_ws rest = [] then Some v else None)"

text \<open>
  A key of a dict: the last of its occurrences in the text counts. The program reads
  \<open>minimize_to_tray\<close> with the default \<open>True\<close>; other keys than the ones of a
  configuration are not kept.
\<close>

definition member_str :: "(string \<times> json) list \<Rightarrow> string \<Rightarrow> string option" where
  "member_str kvs k = (case map_of (rev kvs) k of Some (JString s) \<Rightarrow> Some s | _ \<Rightarrow> None)"

definition member_bool :: "(string \<times> json) list \<Rightarrow> string \<Rightarrow> bool option" where
  "member_bool kvs k = (case map_of (rev kvs) k of Some (JBool b) \<Rightarrow> Some b | _ \<Rightarrow> None)"

definition hotkey_of_json :: "json \<Rightarrow> hotkey option" where
  "hotkey_of_json j =
     (case j of
        JObject kvs \<Rightarrow>
          (case (member_str kvs ''name'', member_str kvs ''shortcut'',
                 member_str kvs ''endpoint'', member_str kvs ''action'') of
             (Some n, Some sc, Some ep, Some a) \<Rightarrow>
               Some \<lparr>name = n, shortcut = sc, endpoint = ep, action = a\<rparr>
           | _ \<Rightarrow> None)
      | _ \<Rightarrow> None)"

definition config_of_json :: "json \<Rightarrow> config option" where
  "config_of_json j =
     (case j of
        JObject kvs \<Rightarrow>
          (case (member_str kvs ''shelly_ip'', member_bool kvs ''autostart'',
                 map_of (rev kvs) ''hotkeys'') of
             (Some ip, Some a, Some (JArray hs)) \<Rightarrow>
               (case (those (map hotkey_of_json hs), map_of (rev kvs) ''minimize_to_tray'') of
                  (Some hks, None) \<Rightarrow>
                    Some \<lparr>shelly_ip = ip, autostart = a, minimize_to_tray = True, hotkeys = hks\<rparr>
                | (Some hks, Some (JBool m)) \<Rightarrow>
                    Some \<lparr>shelly_ip = ip, autostart = a, minimize_to_tray = m, hotkeys = hks\<rparr>
                | _ \<Rightarrow> None)
           | _ \<Rightarrow> None)
      | _ \<Rightarrow> None)"

definition json_loads :: "string \<Rightarrow> config option" where
  "json_loads text = (case json_loads_tree text of Some j \<Rightarrow> config_of_json j | None \<Rightarrow> None)"

text \<open>The tree that the decoder builds from the encoder's text of a configuration.\<close>

definition hotkey_tree :: "hotkey \<Rightarrow> json" where
  "hotkey_tree h =
     JObject [(''name'', JString (name h)), (''shortcut'', JString (shortcut h)),
              (''endpoint'', JString (endpoint h)), (''action'', JString (action h))]"

definition config_tree :: "config \<Rightarrow> json" where
  "config_tree c =
     JObject [(''shelly_ip'', JString (shelly_ip c)), (''autostart'', JBool (autostart c)),
              (''minimize_to_tray'', JBool (minimize_to_tray c)),
              (''hotkeys'', JArray (map hotkey_tree (hotkeys c)))]"

text \<open>
  Key sequences are kept as their text, every request is answered with status 200, the
  file can be written, and registering with the platform succeeds.
\<close>

definition example_env :: "string env" where
  "example_env =
     \<lparr>toolkit_QKeySequence = (\<lambda>t. t),
      net_requests_get = (\<lambda>r. Status 200),
      lib_json_load = json_loads,
      lib_json_dump = json_dumps,
      fs_open_w = (\<lambda>d t. Written),
      os_autostart = (\<lambda>b. None)\<rparr>"


section \<open>The loops as maps\<close>

lemma create_shortcuts_map:
  "create_shortcuts k hs acc =
     acc @ map (\<lambda>h. \<lparr>key = k (shortcut h), enabled = True, activated = (endpoint h, action h)\<rparr>) hs"
  by (induction hs arbitrary: acc) simp_all

lemma disable_shortcuts_map: "disable_shortcuts qs = map (\<lambda>q. q\<lparr>enabled := False\<rparr>) qs"
  by (induction qs) simp_all

lemma device_actions_map:
  "device_actions hs m =
     m @ map (\<lambda>h. DeviceAction (name h @ '' ('' @ action h @ '')'') (endpoint h) (action h)) hs"
  by (induction hs arbitrary: m) simp_all

lemmas program_defs =
  init_def init_ui_def load_config_def default_config_def update_hotkeys_table_def
  setup_shortcuts_def setup_tray_def

text \<open>The program started without a configuration file.\<close>

lemma init_missing:
  "init k jl Missing =
     \<lparr>config = default_config,
      ip_input = ''192.168.1.100'',
      autostart_checkbox = False,
      minimize_to_tray_checkbox = True,
      hotkeys_table = [[''Toggle Light'', ''Ctrl+Alt+L'', ''relay/0'', ''toggle'']],
      shortcuts = [\<lparr>key = k ''Ctrl+Alt+L'', enabled = True, activated = (''relay/0'', ''toggle'')\<rparr>],
      released_shortcuts = [],
      tray_icon = Some \<lparr>visible = True,
                         context_menu = [ShowAction, Separator,
                            DeviceAction ''Toggle Light (toggle)'' ''relay/0'' ''toggle'',
                            Separator, QuitAction]\<rparr>,
      released_tray_icons = [],
      notifications = [],
      dialogs = [],
      sent = [],
      disk = Missing\<rparr>"
  by (simp add: program_defs)

section \<open>Configuration store: defaults\<close>

text \<open>
  Claim C4. When the configuration file is missing, cannot be opened, or holds a text that
  the decoder rejects, \<open>load_config\<close> returns the default configuration: address
  \<open>192.168.1.100\<close>, \<open>autostart\<close> false, \<open>minimize_to_tray\<close> true, and exactly one
  hotkey, the sample one.
\<close>

theorem load_config_default:
  assumes "f = Missing \<or> f = Unreadable \<or> (\<exists>text. f = Contents text \<and> jl text = None)"
  shows "load_config jl f =
           \<lparr>shelly_ip = ''192.168.1.100'', autostart = False, minimize_to_tray = True,
            hotkeys = [\<lparr>name = ''Toggle Light'', shortcut = ''Ctrl+Alt+L'',
                        endpoint = ''relay/0'', action = ''toggle''\<rparr>]\<rparr>"
  using assms by (auto simp: load_config_def default_config_def)

theorem load_config_default_witness:
  "load_config (\<lambda>text. None) (Contents ''{not json'') =
           \<lparr>shelly_ip = ''192.168.1.100'', autostart = False, minimize_to_tray = True,
            hotkeys = [\<lparr>name = ''Toggle Light'', shortcut = ''Ctrl+Alt+L'',
                        endpoint = ''relay/0'', action = ''toggle''\<rparr>]\<rparr>"
  using load_config_default [of "Contents ''{not json''" "\<lambda>text. None"] by simp

section \<open>Device client\<close>

lemma toggle_shelly_device_sends:
  assumes "act = ''toggle'' \<or> act = ''on'' \<or> act = ''off''"
  shows "toggle_shelly_device get s ep act =
           (let r = GET (''http://'' @ shelly_ip (config s) @ ''/'' @ ep @ ''?turn='' @ act) None;
                s' = s\<lparr>sent := sent s @ [r]\<rparr>
            in case get r of
                 Status code \<Rightarrow>
                   if code = 200
                   then show_message (''Successfully toggled: '' @ ep) Information 2000 s'
                   else show_message (''Error: Status code '' @ str_nat code) Warning 3000 s'
               | RequestException e \<Rightarrow> show_message (''Failed: '' @ e) Critical 3000 s')"
proof -
  consider "act = ''toggle''" | "act = ''on''" | "act = ''off''"
    using assms by blast
  then show ?thesis
  proof cases
    case 1
    then show ?thesis
      by (simp add: toggle_shelly_device_def Let_def split: http_result.splits)
  next
    case 2
    then show ?thesis
      by (simp add: toggle_shelly_device_def Let_def split: http_result.splits)
  next
    case 3
    then show ?thesis
      by (simp add: toggle_shelly_device_def Let_def split: http_result.splits)
  qed
qed

lemma toggle_shelly_device_other:
  assumes "act \<noteq> ''toggle''" and "act \<noteq> ''on''" and "act \<noteq> ''off''"
  shows "toggle_shelly_device get s ep act =
           s\<lparr>notifications := notifications s @
               [ShowMessage ''Shelly Controller'' (''Unknown action: '' @ act) Warning 3000]\<rparr>"
  using assms by (simp add: toggle_shelly_device_def show_message_def)

text \<open>
  Claim C2. With the action \<open>toggle\<close>, \<open>on\<close> or \<open>off\<close>, \<open>toggle_shelly_device\<close>
  issues exactly one GET, to \<open>http://{ip}/{endpoint}?turn={action}\<close>, and shows exactly
  one notification. The notification is the success message if and only if the response
  has status 200; for every other status and for every exception it is a warning or a
  critical message.
\<close>

theorem toggle_shelly_device_request:
  assumes "act = ''toggle'' \<or> act = ''on'' \<or> act = ''off''"
  shows "\<exists>n. toggle_shelly_device get s ep act =
              s\<lparr>sent := sent s @ [GET (''http://'' @ shelly_ip (config s) @ ''/'' @ ep @ ''?turn='' @ act) None],
                notifications := notifications s @ [n]\<rparr>
           \<and> (n = ShowMessage ''Shelly Controller'' (''Successfully toggled: '' @ ep) Information 2000
                \<longleftrightarrow> get (GET (''http://'' @ shelly_ip (config s) @ ''/'' @ ep @ ''?turn='' @ act) None) = Status 200)
           \<and> (get (GET (''http://'' @ shelly_ip (config s) @ ''/'' @ ep @ ''?turn='' @ act) None) \<noteq> Status 200
                \<longrightarrow> (\<exists>text. n = ShowMessage ''Shelly Controller'' text Warning 3000
                            \<or> n = ShowMessage ''Shelly Controller'' text Critical 3000))"
proof (cases "get (GET (''http://'' @ shelly_ip (config s) @ ''/'' @ ep @ ''?turn='' @ act) None)")
  case (Status code)
  show ?thesis
  proof (cases "code = 200")
    case True
    with Status show ?thesis
      unfolding toggle_shelly_device_sends [OF assms]
      by (intro exI [of _ "ShowMessage ''Shelly Controller'' (''Successfully toggled: '' @ ep) Information 2000"])
         (simp add: show_message_def)
  next
    case False
    with Status show ?thesis
      unfolding toggle_shelly_device_sends [OF assms]
      by (intro exI [of _ "ShowMessage ''Shelly Controller'' (''Error: Status code '' @ str_nat code) Warning 3000"])
         (simp add: show_message_def)
  qed
next
  case (RequestException e)
  then show ?thesis
    unfolding toggle_shelly_device_sends [OF assms]
    by (intro exI [of _ "ShowMessage ''Shelly Controller'' (''Failed: '' @ e) Critical 3000"])
       (simp add: show_message_def)
qed

theorem toggle_shelly_device_request_witness:
  "\<exists>n. toggle_shelly_device (\<lambda>r. Status 200) (init (\<lambda>text. text) (\<lambda>text. None) Missing) ''relay/0'' ''toggle'' =
          (init (\<lambda>text. text) (\<lambda>text. None) Missing)
            \<lparr>sent := [GET ''http://192.168.1.100/relay/0?turn=toggle'' None], notifications := [n]\<rparr>
        \<and> n = ShowMessage ''Shelly Controller'' ''Successfully toggled: relay/0'' Information 2000"
  using toggle_shelly_device_request [of "''toggle''" "\<lambda>r. Status 200"
      "init (\<lambda>text. text) (\<lambda>text. None) Missing" "''relay/0''"]
  by (simp add: init_missing default_config_def)

text \<open>
  Claim C3. With any action other than \<open>toggle\<close>, \<open>on\<close> and \<open>off\<close>,
  \<open>toggle_shelly_device\<close> shows the warning \<open>Unknown action: {action}\<close>, issues no
  request and changes nothing else.
\<close>

theorem toggle_shelly_device_unknown_action:
  assumes "act \<noteq> ''toggle''" and "act \<noteq> ''on''" and "act \<noteq> ''off''"
  shows "toggle_shelly_device get s ep act =
           s\<lparr>notifications := notifications s @
               [ShowMessage ''Shelly Controller'' (''Unknown action: '' @ act) Warning 3000]\<rparr>
         \<and> sent (toggle_shelly_device get s ep act) = sent s"
  using toggle_shelly_device_other [OF assms, of get s ep] by simp

theorem toggle_shelly_device_unknown_action_witness:
  "toggle_shelly_device (\<lambda>r. Status 200) (init (\<lambda>text. text) (\<lambda>text. None) Missing) ''relay/0'' ''banana'' =
     (init (\<lambda>text. text) (\<lambda>text. None) Missing)
       \<lparr>notifications := [ShowMessage ''Shelly Controller'' ''Unknown action: banana'' Warning 3000]\<rparr>
   \<and> sent (toggle_shelly_device (\<lambda>r. Status 200) (init (\<lambda>text. text) (\<lambda>text. None) Missing) ''relay/0'' ''banana'') = []"
  using toggle_shelly_device_unknown_action [of "''banana''" "\<lambda>r. Status 200"
      "init (\<lambda>text. text) (\<lambda>text. None) Missing" "''relay/0''"]
  by (simp add: init_missing)

lemma toggle_shelly_device_frame:
  "\<exists>rs ns. toggle_shelly_device get s ep act = s\<lparr>sent := rs, notifications := ns\<rparr>"
proof (cases "act = ''toggle'' \<or> act = ''on'' \<or> act = ''off''")
  case True
  let ?r = "GET (''http://'' @ shelly_ip (config s) @ ''/'' @ ep @ ''?turn='' @ act) None"
  have shown: "show_message t ic ms (s\<lparr>sent := sent s @ [?r]\<rparr>) =
                 s\<lparr>sent := sent s @ [?r],
                   notifications := notifications s @ [ShowMessage ''Shelly Controller'' t ic ms]\<rparr>"
    for t ic ms
    by (simp add: show_message_def)
  have "\<exists>text ic ms. toggle_shelly_device get s ep act = show_message text ic ms (s\<lparr>sent := sent s @ [?r]\<rparr>)"
  proof (cases "get ?r")
    case (Status code)
    show ?thesis
    proof (cases "code = 200")
      case True
      with Status have "toggle_shelly_device get s ep act =
          show_message (''Successfully toggled: '' @ ep) Information 2000 (s\<lparr>sent := sent s @ [?r]\<rparr>)"
        unfolding toggle_shelly_device_sends [OF \<open>act = ''toggle'' \<or> act = ''on'' \<or> act = ''off''\<close>]
        by simp
      then show ?thesis by blast
    next
      case False
      with Status have "toggle_shelly_device get s ep act =
          show_message (''Error: Status code '' @ str_nat code) Warning 3000 (s\<lparr>sent := sent s @ [?r]\<rparr>)"
        unfolding toggle_shelly_device_sends [OF \<open>act = ''toggle'' \<or> act = ''on'' \<or> act = ''off''\<close>]
        by simp
      then show ?thesis by blast
    qed
  next
    case (RequestException e)
    then have "toggle_shelly_device get s ep act =
        show_message (''Failed: '' @ e) Critical 3000 (s\<lparr>sent := sent s @ [?r]\<rparr>)"
      unfolding toggle_shelly_device_sends [OF True]
      by simp
    then show ?thesis by blast
  qed
  then obtain t ic ms where
    "toggle_shelly_device get s ep act = show_message t ic ms (s\<lparr>sent := sent s @ [?r]\<rparr>)"
    by blast
  then have "toggle_shelly_device get s ep act =
      s\<lparr>sent := sent s @ [?r],
        notifications := notifications s @ [ShowMessage ''Shelly Controller'' t ic ms]\<rparr>"
    by (simp only: shown)
  then show ?thesis by blast
next
  case False
  then have "toggle_shelly_device get s ep act =
               s\<lparr>sent := sent s, notifications := notifications s @
                 [ShowMessage ''Shelly Controller'' (''Unknown action: '' @ act) Warning 3000]\<rparr>"
    using toggle_shelly_device_other [of act get s ep] by simp
  then show ?thesis by blast
qed

section \<open>Connectivity probe\<close>

text \<open>
  Claim C5. \<open>test_connection\<close> requests \<open>/shelly\<close>, \<open>/relay/0\<close> and \<open>/\<close> of the
  configured address in this order, each with a timeout of 3 seconds. It stops at the
  first response with status 200, reports success and issues no further request; when
  none of the three gives status 200 (another status, or an exception such as a timeout)
  it has issued all three requests and reports the failure.
\<close>

theorem test_connection_order:
  "test_connection get s =
     (let ip = shelly_ip (config s);
          r1 = GET (''http://'' @ ip @ ''/shelly'') (Some 3);
          r2 = GET (''http://'' @ ip @ ''/relay/0'') (Some 3);
          r3 = GET (''http://'' @ ip @ ''/'') (Some 3);
          success = MessageBox Information ''Success'' ''Successfully connected to Shelly device!'';
          failure = MessageBox Warning ''Error'' ''Failed to connect to the Shelly device''
      in if get r1 = Status 200 then s\<lparr>sent := sent s @ [r1], dialogs := dialogs s @ [success]\<rparr>
         else if get r2 = Status 200 then s\<lparr>sent := sent s @ [r1, r2], dialogs := dialogs s @ [success]\<rparr>
         else if get r3 = Status 200 then s\<lparr>sent := sent s @ [r1, r2, r3], dialogs := dialogs s @ [success]\<rparr>
         else s\<lparr>sent := sent s @ [r1, r2, r3], dialogs := dialogs s @ [failure]\<rparr>)"
  by (simp add: test_connection_def endpoints_def Let_def split: http_result.splits)

lemma test_connection_loop_frame:
  "\<exists>rs ds. test_connection_loop get ip eps s = s\<lparr>sent := rs, dialogs := ds\<rparr>"
proof (induction eps arbitrary: s)
  case Nil
  have "test_connection_loop get ip [] s =
          s\<lparr>sent := sent s, dialogs := dialogs s @ [MessageBox Warning ''Error'' ''Failed to connect to the Shelly device'']\<rparr>"
    by simp
  then show ?case by blast
next
  case (Cons ep eps)
  let ?r = "GET (''http://'' @ ip @ ep) (Some 3)"
  let ?s = "s\<lparr>sent := sent s @ [?r]\<rparr>"
  obtain rs ds where rest: "test_connection_loop get ip eps ?s = ?s\<lparr>sent := rs, dialogs := ds\<rparr>"
    using Cons.IH by blast
  show ?case
  proof (cases "get ?r = Status 200")
    case True
    then have "test_connection_loop get ip (ep # eps) s =
                 s\<lparr>sent := sent s @ [?r],
                   dialogs := dialogs s @ [MessageBox Information ''Success'' ''Successfully connected to Shelly device!'']\<rparr>"
      by simp
    then show ?thesis by blast
  next
    case False
    then have "test_connection_loop get ip (ep # eps) s = test_connection_loop get ip eps ?s"
      by (simp add: Let_def split: http_result.splits)
    with rest have "test_connection_loop get ip (ep # eps) s = s\<lparr>sent := rs, dialogs := ds\<rparr>"
      by simp
    then show ?thesis by blast
  qed
qed

lemma test_connection_frame:
  "\<exists>rs ds. test_connection get s = s\<lparr>sent := rs, dialogs := ds\<rparr>"
  unfolding test_connection_def by (rule test_connection_loop_frame)

section \<open>Configuration store: a failed save\<close>

text \<open>
  Claim C9. When writing the configuration file raises, \<open>save_config\<close> shows the warning
  \<open>Failed to save configuration: {e}\<close> and returns; the configuration in memory, like
  every other attribute of the window, is what it was. The caller goes on: \<open>save_settings\<close>
  always ends with its own dialog.
\<close>

theorem save_config_failure:
  assumes "ow (disk s) (jd (config s) 2) = WriteFailed e d"
  shows "save_config jd ow s =
           s\<lparr>disk := d,
             dialogs := dialogs s @ [MessageBox Warning ''Error'' (''Failed to save configuration: '' @ e)]\<rparr>
         \<and> config (save_config jd ow s) = config s
         \<and> last (dialogs (save_settings jd ow pa s)) = MessageBox Information ''Success'' ''Settings saved!''"
  using assms by (simp add: save_config_def save_settings_def Let_def)

theorem save_config_failure_witness:
  "save_config (\<lambda>c n. ''{}'') (\<lambda>d text. WriteFailed ''Permission denied'' d)
       (init (\<lambda>text. text) (\<lambda>text. None) Missing) =
     (init (\<lambda>text. text) (\<lambda>text. None) Missing)
       \<lparr>dialogs := [MessageBox Warning ''Error'' ''Failed to save configuration: Permission denied'']\<rparr>
   \<and> config (save_config (\<lambda>c n. ''{}'') (\<lambda>d text. WriteFailed ''Permission denied'' d)
       (init (\<lambda>text. text) (\<lambda>text. None) Missing)) = default_config"
  using save_config_failure [of "\<lambda>d text. WriteFailed ''Permission denied'' d"
      "init (\<lambda>text. text) (\<lambda>text. None) Missing" "\<lambda>c n. ''{}''" "''Permission denied''" Missing]
  by (simp add: init_missing)

section \<open>Removing a hotkey\<close>

text \<open>
  Claim C10. With no row selected, \<open>remove_hotkey\<close> returns at once: the list of hotkeys,
  the shortcut objects, the tray icons and everything else stay as they were.
\<close>

theorem remove_hotkey_no_selection: "remove_hotkey k s [] = s"
  by (simp add: remove_hotkey_def)


section \<open>The invariant of the registry\<close>

lemma registry_inv_rebuild:
  assumes "list_all (\<lambda>q. \<not> enabled q) (released_shortcuts s)" and "ip_input s = shelly_ip (config s)"
  shows "registry_inv k (setup_tray (setup_shortcuts k s))"
  using assms
  by (auto simp: registry_inv_def setup_tray_def setup_shortcuts_def disable_shortcuts_map list_all_iff)

lemma registry_inv_init: "registry_inv k (init k jl f)"
  unfolding init_def
  by (rule registry_inv_rebuild) (simp_all add: init_ui_def update_hotkeys_table_def)

lemma registry_inv_add_hotkey:
  "registry_inv k s \<Longrightarrow> registry_inv k (add_hotkey k s)"
  unfolding add_hotkey_def
  by (rule registry_inv_rebuild) (simp_all add: registry_inv_def update_hotkeys_table_def)

lemma registry_inv_remove_hotkey:
  "registry_inv k s \<Longrightarrow> registry_inv k (remove_hotkey k s sel)"
proof (cases sel)
  case Nil
  assume "registry_inv k s"
  with Nil show ?thesis by (simp add: remove_hotkey_def)
next
  case (Cons row rest)
  assume inv: "registry_inv k s"
  show ?thesis
  proof (cases "row < length (hotkeys (config s))")
    case True
    have "registry_inv k (setup_tray (setup_shortcuts k (update_hotkeys_table
            (s\<lparr>config := (config s)\<lparr>hotkeys := pop row (hotkeys (config s))\<rparr>\<rparr>))))"
      using inv by (intro registry_inv_rebuild) (simp_all add: registry_inv_def update_hotkeys_table_def)
    with True Cons show ?thesis by (simp add: remove_hotkey_def)
  next
    case False
    with Cons inv show ?thesis by (simp add: remove_hotkey_def)
  qed
qed

lemma registry_inv_hotkey_cell_changed:
  assumes "registry_inv k s"
  shows "registry_inv k (hotkey_cell_changed k s row column)"
proof -
  have rebuilt: "registry_inv k (setup_tray (setup_shortcuts k
          (s\<lparr>config := (config s)\<lparr>hotkeys := (hotkeys (config s))[row := h]\<rparr>\<rparr>)))" for h
    using assms by (intro registry_inv_rebuild) (simp_all add: registry_inv_def)
  show ?thesis
    using assms rebuilt
    by (simp add: hotkey_cell_changed_def split: option.splits)
qed

lemma registry_inv_table:
  "registry_inv k (s\<lparr>hotkeys_table := t\<rparr>) = registry_inv k s"
  by (simp add: registry_inv_def)

lemma registry_inv_toggle:
  assumes "registry_inv k s"
  shows "registry_inv k (toggle_shelly_device get s ep act)"
proof -
  obtain rs ns where "toggle_shelly_device get s ep act = s\<lparr>sent := rs, notifications := ns\<rparr>"
    using toggle_shelly_device_frame by blast
  with assms show ?thesis by (simp add: registry_inv_def)
qed

lemma registry_inv_step:
  assumes "registry_inv (toolkit_QKeySequence E) s"
  shows "registry_inv (toolkit_QKeySequence E) (step E s ev)"
proof (cases ev)
  case AddHotkey
  with assms show ?thesis by (simp add: registry_inv_add_hotkey)
next
  case (RemoveHotkey sel)
  with assms show ?thesis by (simp add: registry_inv_remove_hotkey)
next
  case (EditCell row column t)
  with assms show ?thesis
    by (simp add: registry_inv_hotkey_cell_changed registry_inv_table)
next
  case (EditIp t)
  with assms show ?thesis by (simp add: registry_inv_def ip_text_changed_def)
next
  case (CheckAutostart b checked)
  with assms show ?thesis by (simp add: registry_inv_def toggle_autostart_def)
next
  case (CheckMinimize b checked)
  with assms show ?thesis by (simp add: registry_inv_def toggle_minimize_to_tray_def)
next
  case (ActivateShortcut n)
  have "registry_inv (toolkit_QKeySequence E) (toggle_shelly_device (net_requests_get E) s ep act)"
    for ep act
    using assms by (rule registry_inv_toggle)
  with assms ActivateShortcut show ?thesis by (simp add: Let_def)
next
  case (TriggerMenu n m)
  have "registry_inv (toolkit_QKeySequence E) (toggle_shelly_device (net_requests_get E) s ep act)"
    for ep act
    using assms by (rule registry_inv_toggle)
  with assms TriggerMenu show ?thesis by (simp add: Let_def split: menu_action.splits)
next
  case TestConnection
  obtain rs ds where "test_connection (net_requests_get E) s = s\<lparr>sent := rs, dialogs := ds\<rparr>"
    using test_connection_frame by blast
  with assms TestConnection show ?thesis by (simp add: registry_inv_def)
next
  case SaveSettings
  with assms show ?thesis
    by (simp add: registry_inv_def save_settings_def save_config_def configure_autostart_def Let_def
        split: write_result.splits option.splits)
qed

lemma registry_inv_foldl:
  "registry_inv (toolkit_QKeySequence E) s \<Longrightarrow> registry_inv (toolkit_QKeySequence E) (foldl (step E) s evs)"
  by (induction evs arbitrary: s) (simp_all add: registry_inv_step)

lemma registry_inv_run: "registry_inv (toolkit_QKeySequence E) (run E f evs)"
  unfolding run_def by (rule registry_inv_foldl) (rule registry_inv_init)


section \<open>The example decoder reads what the example encoder writes\<close>

text \<open>
  For every configuration and every indentation, decoding the encoder's text gives the
  configuration back. The proof follows the encoder: escaped strings, members joined by
  commas and line breaks, the array of hotkeys, the object of the configuration; the
  length of the text is enough fuel.
\<close>

lemma hex_value_hex_char: "d < 16 \<Longrightarrow> hex_value (hex_char d) = Some d"
  by (auto simp: hex_value_def hex_char_def Let_def)

lemma parse_string_escape:
  "parse_string (json_escape c @ t) acc = parse_string t (c # acc)"
proof -
  let ?n = "of_char c :: nat"
  have n: "?n < 256" by simp
  have hi: "?n div 16 < 16" using n by arith
  have lo: "?n mod 16 < 16" by simp
  have same: "char_of (16 * (?n div 16) + ?n mod 16) = c" by simp
  show ?thesis
    using hex_value_hex_char [OF hi] hex_value_hex_char [OF lo] same
    by (simp add: json_escape_def unescape_def hex_value_def)
qed

lemma parse_string_escaped:
  "parse_string (concat (map json_escape s) @ CHR 0x22 # rest) acc = Some (rev acc @ s, rest)"
  by (induction s arbitrary: acc) (simp_all add: parse_string_escape)


lemma skip_ws_spaces: "skip_ws (replicate n CHR '' '' @ x) = skip_ws x"
  by (induction n) (simp_all add: skip_ws_def is_ws_def)

lemma skip_ws_newline_indent: "skip_ws (newline_indent i l @ x) = skip_ws x"
  using skip_ws_spaces [of "i * l" x] by (simp add: newline_indent_def skip_ws_def is_ws_def)

lemma skip_ws_space: "skip_ws (CHR '' '' # x) = skip_ws x"
  by (simp add: skip_ws_def is_ws_def)

lemma skip_ws_other: "\<not> is_ws c \<Longrightarrow> skip_ws (c # x) = c # x"
  by (simp add: skip_ws_def)

lemma parse_value_skip: "skip_ws t = skip_ws t' \<Longrightarrow> parse_value n t = parse_value n t'"
  by (cases n) simp_all

lemma parse_members_skip: "skip_ws t = skip_ws t' \<Longrightarrow> parse_members n t acc = parse_members n t' acc"
  by (cases n) simp_all

lemma parse_value_string: "parse_value (Suc n) (json_string s @ rest) = Some (JString s, rest)"
  by (simp add: json_string_def skip_ws_def is_ws_def parse_string_escaped)

lemma parse_value_bool: "parse_value (Suc n) (json_bool b @ rest) = Some (JBool b, rest)"
  by (simp add: json_bool_def skip_ws_def is_ws_def is_number_char_def)

lemma parse_members_step:
  assumes "parse_value n (t @ rest) = Some (v, rest)"
  shows "parse_members (Suc n) (newline_indent i l @ json_member k t @ rest) acc =
           (case skip_ws rest of
              [] \<Rightarrow> None
            | d # ds \<Rightarrow>
                if d = CHR '','' then parse_members n ds ((k, v) # acc)
                else if d = CHR ''}'' then Some (JObject (rev ((k, v) # acc)), ds)
                else None)"
proof -
  have start: "skip_ws (newline_indent i l @ json_member k t @ rest) =
                 CHR 0x22 # concat (map json_escape k) @ CHR 0x22 # '': '' @ t @ rest"
    by (simp add: skip_ws_newline_indent json_member_def json_string_def skip_ws_other is_ws_def)
  have colon: "skip_ws (CHR '':'' # CHR '' '' # t @ rest) = CHR '':'' # CHR '' '' # t @ rest"
    by (simp add: skip_ws_other is_ws_def)
  have val: "parse_value n (CHR '' '' # t @ rest) = Some (v, rest)"
    using assms parse_value_skip [of "CHR '' '' # t @ rest" "t @ rest" n]
    by (simp add: skip_ws_space)
  show ?thesis
    by (simp add: start parse_string_escaped colon val)
qed

lemma parse_elements_step:
  assumes "parse_value n (t @ rest) = Some (v, rest)"
  shows "parse_elements (Suc n) (newline_indent i l @ t @ rest) acc =
           (case skip_ws rest of
              [] \<Rightarrow> None
            | d # ds \<Rightarrow>
                if d = CHR '','' then parse_elements n ds (v # acc)
                else if d = CHR '']'' then Some (JArray (rev (v # acc)), ds)
                else None)"
proof -
  have "parse_value n (newline_indent i l @ t @ rest) = Some (v, rest)"
    using assms parse_value_skip [of "newline_indent i l @ t @ rest" "t @ rest" n]
    by (simp add: skip_ws_newline_indent)
  then show ?thesis by simp
qed


declare parse_value.simps [simp del] parse_elements.simps [simp del] parse_members.simps [simp del]

lemma join_Cons: "xs \<noteq> [] \<Longrightarrow> join sep (x # xs) = x @ sep @ join sep xs"
  by (cases xs) simp_all

lemma parse_members_join:
  assumes "kvs \<noteq> []"
    and "\<And>k t v n rest. (k, t, v) \<in> set kvs \<Longrightarrow> f0 \<le> n \<Longrightarrow> parse_value n (t @ rest) = Some (v, rest)"
    and "f0 + length kvs \<le> n"
  shows "parse_members n
           (newline_indent i l
              @ join (CHR '','' # newline_indent i l) (map (\<lambda>(k, t, v). json_member k t) kvs)
              @ newline_indent i l' @ CHR ''}'' # rest) acc
         = Some (JObject (rev acc @ map (\<lambda>(k, t, v). (k, v)) kvs), rest)"
  using assms
proof (induction kvs arbitrary: n acc rule: list_nonempty_induct)
  case (single x)
  obtain k t v where x: "x = (k, t, v)" by (cases x) auto
  from single(2) obtain n' where n: "n = Suc n'" and n': "f0 \<le> n'"
    by (cases n) auto
  have val: "parse_value n' (t @ newline_indent i l' @ CHR ''}'' # rest) = Some (v, newline_indent i l' @ CHR ''}'' # rest)"
    using single(1) [of k t v n'] n' by (simp add: x)
  have close: "skip_ws (newline_indent i l' @ CHR ''}'' # rest) = CHR ''}'' # rest"
    by (simp add: skip_ws_newline_indent skip_ws_other is_ws_def)
  show ?case
    using parse_members_step [OF val, of i l k acc]
    by (simp add: x n close)
next
  case (cons x xs)
  obtain k t v where x: "x = (k, t, v)" by (cases x) auto
  from cons.prems(2) obtain n' where n: "n = Suc n'" and n': "f0 + length xs \<le> n'"
    by (cases n) auto
  let ?more = "CHR '','' # newline_indent i l
                 @ join (CHR '','' # newline_indent i l) (map (\<lambda>(k, t, v). json_member k t) xs)
                 @ newline_indent i l' @ CHR ''}'' # rest"
  have val: "parse_value n' (t @ ?more) = Some (v, ?more)"
    using cons.prems(1) [of k t v n'] n' by (simp add: x)
  have comma: "skip_ws ?more = ?more"
    by (simp add: skip_ws_other is_ws_def)
  have rest_ok: "parse_members n'
           (newline_indent i l
              @ join (CHR '','' # newline_indent i l) (map (\<lambda>(k, t, v). json_member k t) xs)
              @ newline_indent i l' @ CHR ''}'' # rest) ((k, v) # acc)
         = Some (JObject (rev ((k, v) # acc) @ map (\<lambda>(k, t, v). (k, v)) xs), rest)"
  proof (rule cons.IH [OF _ n'])
    fix k' t' v' m r
    assume "(k', t', v') \<in> set xs" and "f0 \<le> m"
    then show "parse_value m (t' @ r) = Some (v', r)"
      using cons.prems(1) [of k' t' v' m r] by simp
  qed
  have shape: "join (CHR '','' # newline_indent i l) (json_member k t # map (\<lambda>(k, t, v). json_member k t) xs)
                 = json_member k t @ (CHR '','' # newline_indent i l)
                     @ join (CHR '','' # newline_indent i l) (map (\<lambda>(k, t, v). json_member k t) xs)"
    using cons.hyps by (simp add: join_Cons)
  show ?case
    using parse_members_step [OF val, of i l k acc] rest_ok
    by (simp add: shape n comma x)
qed

lemma parse_elements_join:
  assumes "tvs \<noteq> []"
    and "\<And>t v n rest. (t, v) \<in> set tvs \<Longrightarrow> f0 \<le> n \<Longrightarrow> parse_value n (t @ rest) = Some (v, rest)"
    and "f0 + length tvs \<le> n"
  shows "parse_elements n
           (newline_indent i l
              @ join (CHR '','' # newline_indent i l) (map fst tvs)
              @ newline_indent i l' @ CHR '']'' # rest) acc
         = Some (JArray (rev acc @ map snd tvs), rest)"
  using assms
proof (induction tvs arbitrary: n acc rule: list_nonempty_induct)
  case (single x)
  obtain t v where x: "x = (t, v)" by (cases x) auto
  from single(2) obtain n' where n: "n = Suc n'" and n': "f0 \<le> n'"
    by (cases n) auto
  have val: "parse_value n' (t @ newline_indent i l' @ CHR '']'' # rest) = Some (v, newline_indent i l' @ CHR '']'' # rest)"
    using single(1) [of t v n'] n' by (simp add: x)
  have close: "skip_ws (newline_indent i l' @ CHR '']'' # rest) = CHR '']'' # rest"
    by (simp add: skip_ws_newline_indent skip_ws_other is_ws_def)
  show ?case
    using parse_elements_step [OF val, of i l acc]
    by (simp add: x n close)
next
  case (cons x xs)
  obtain t v where x: "x = (t, v)" by (cases x) auto
  from cons.prems(2) obtain n' where n: "n = Suc n'" and n': "f0 + length xs \<le> n'"
    by (cases n) auto
  let ?more = "CHR '','' # newline_indent i l
                 @ join (CHR '','' # newline_indent i l) (map fst xs)
                 @ newline_indent i l' @ CHR '']'' # rest"
  have val: "parse_value n' (t @ ?more) = Some (v, ?more)"
    using cons.prems(1) [of t v n'] n' by (simp add: x)
  have comma: "skip_ws ?more = ?more"
    by (simp add: skip_ws_other is_ws_def)
  have rest_ok: "parse_elements n'
           (newline_indent i l
              @ join (CHR '','' # newline_indent i l) (map fst xs)
              @ newline_indent i l' @ CHR '']'' # rest) (v # acc)
         = Some (JArray (rev (v # acc) @ map snd xs), rest)"
  proof (rule cons.IH [OF _ n'])
    fix t' v' m r
    assume "(t', v') \<in> set xs" and "f0 \<le> m"
    then show "parse_value m (t' @ r) = Some (v', r)"
      using cons.prems(1) [of t' v' m r] by simp
  qed
  have shape: "join (CHR '','' # newline_indent i l) (t # map fst xs)
                 = t @ (CHR '','' # newline_indent i l) @ join (CHR '','' # newline_indent i l) (map fst xs)"
    using cons.hyps by (simp add: join_Cons)
  show ?case
    using parse_elements_step [OF val, of i l acc] rest_ok
    by (simp add: shape n comma x)
qed


lemma parse_value_hotkey:
  assumes "5 \<le> n"
  shows "parse_value (Suc n) (json_hotkey i l h @ rest) =
           Some (JObject [(''name'', JString (name h)), (''shortcut'', JString (shortcut h)),
                          (''endpoint'', JString (endpoint h)), (''action'', JString (action h))], rest)"
proof -
  let ?kvs = "[(''name'', json_string (name h), JString (name h)),
               (''shortcut'', json_string (shortcut h), JString (shortcut h)),
               (''endpoint'', json_string (endpoint h), JString (endpoint h)),
               (''action'', json_string (action h), JString (action h))]"
  have vals: "parse_value m (t @ r) = Some (v, r)" if "(k, t, v) \<in> set ?kvs" and "1 \<le> m" for k t v m r
  proof -
    from that(2) obtain m' where "m = Suc m'" by (cases m) auto
    with that(1) show ?thesis by (auto simp: parse_value_string)
  qed
  have "parse_members n
           (newline_indent i (Suc l)
              @ join (CHR '','' # newline_indent i (Suc l)) (map (\<lambda>(k, t, v). json_member k t) ?kvs)
              @ newline_indent i l @ CHR ''}'' # rest) []
         = Some (JObject (rev [] @ map (\<lambda>(k, t, v). (k, v)) ?kvs), rest)"
    using assms by (intro parse_members_join [where ?f0.0 = 1] vals) simp_all
  then have members: "parse_members n
           (newline_indent i (Suc l)
              @ join (CHR '','' # newline_indent i (Suc l))
                  [json_member ''name'' (json_string (name h)),
                   json_member ''shortcut'' (json_string (shortcut h)),
                   json_member ''endpoint'' (json_string (endpoint h)),
                   json_member ''action'' (json_string (action h))]
              @ newline_indent i l @ CHR ''}'' # rest) []
         = Some (JObject [(''name'', JString (name h)), (''shortcut'', JString (shortcut h)),
                          (''endpoint'', JString (endpoint h)), (''action'', JString (action h))], rest)"
    by simp
  obtain y where first: "skip_ws (newline_indent i (Suc l)
              @ join (CHR '','' # newline_indent i (Suc l))
                  [json_member ''name'' (json_string (name h)),
                   json_member ''shortcut'' (json_string (shortcut h)),
                   json_member ''endpoint'' (json_string (endpoint h)),
                   json_member ''action'' (json_string (action h))]
              @ newline_indent i l @ CHR ''}'' # rest)
            = CHR 0x22 # y"
    by (simp add: skip_ws_newline_indent json_member_def json_string_def skip_ws_other is_ws_def)
  have open_brace: "skip_ws (CHR ''{'' # x) = CHR ''{'' # x" for x
    by (simp add: skip_ws_other is_ws_def)
  show ?thesis
    unfolding json_hotkey_def json_container_def
    using members first
    by (simp add: open_brace parse_value.simps del: join.simps)
qed


lemma json_hotkey_first: "\<exists>y. json_hotkey i l h = CHR ''{'' # y"
  by (simp add: json_hotkey_def json_container_def)

lemma join_first: "join sep (x # xs) @ r = x @ (if xs = [] then r else sep @ join sep xs @ r)"
  by (cases xs) simp_all

lemma parse_value_hotkeys:
  assumes "6 + length hs \<le> n"
  shows "parse_value (Suc n) (json_container CHR ''['' CHR '']'' i l (map (json_hotkey i l') hs) @ rest) =
           Some (JArray (map hotkey_tree hs), rest)"
proof (cases hs)
  case Nil
  then show ?thesis
    by (simp add: json_container_def parse_value.simps skip_ws_other is_ws_def)
next
  case (Cons h0 hs')
  let ?tvs = "map (\<lambda>h. (json_hotkey i l' h, hotkey_tree h)) hs"
  have vals: "parse_value m (t @ r) = Some (v, r)" if "(t, v) \<in> set ?tvs" and "6 \<le> m" for t v m r
  proof -
    from that(2) obtain m' where "m = Suc m'" and "5 \<le> m'" by (cases m) auto
    with that(1) show ?thesis by (auto simp: parse_value_hotkey hotkey_tree_def)
  qed
  have "parse_elements n
           (newline_indent i (Suc l)
              @ join (CHR '','' # newline_indent i (Suc l)) (map fst ?tvs)
              @ newline_indent i l @ CHR '']'' # rest) []
         = Some (JArray (rev [] @ map snd ?tvs), rest)"
    using assms Cons by (intro parse_elements_join [where ?f0.0 = 6] vals) simp_all
  then have elements: "parse_elements n
           (newline_indent i (Suc l)
              @ join (CHR '','' # newline_indent i (Suc l)) (map (json_hotkey i l') hs)
              @ newline_indent i l @ CHR '']'' # rest) []
         = Some (JArray (map hotkey_tree hs), rest)"
    by (simp add: comp_def)
  obtain y0 where y0: "json_hotkey i l' h0 = CHR ''{'' # y0"
    using json_hotkey_first by blast
  obtain y where first: "skip_ws (newline_indent i (Suc l)
              @ join (CHR '','' # newline_indent i (Suc l)) (map (json_hotkey i l') hs)
              @ newline_indent i l @ CHR '']'' # rest) = CHR ''{'' # y"
    by (simp add: Cons skip_ws_newline_indent join_first y0 skip_ws_other is_ws_def del: join.simps)
  have open_bracket: "skip_ws (CHR ''['' # x) = CHR ''['' # x" for x
    by (simp add: skip_ws_other is_ws_def)
  have nonempty: "map (json_hotkey i l') hs \<noteq> []"
    using Cons by simp
  show ?thesis
    unfolding json_container_def
    using elements first nonempty
    by (simp add: open_bracket parse_value.simps del: join.simps)
qed


lemma parse_value_config:
  assumes "11 + length (hotkeys c) \<le> n"
  shows "parse_value (Suc n) (json_dumps c i @ rest) = Some (config_tree c, rest)"
proof -
  let ?array = "json_container CHR ''['' CHR '']'' i 1 (map (json_hotkey i 2) (hotkeys c))"
  let ?kvs = "[(''shelly_ip'', json_string (shelly_ip c), JString (shelly_ip c)),
               (''autostart'', json_bool (autostart c), JBool (autostart c)),
               (''minimize_to_tray'', json_bool (minimize_to_tray c), JBool (minimize_to_tray c)),
               (''hotkeys'', ?array, JArray (map hotkey_tree (hotkeys c)))]"
  have vals: "parse_value m (t @ r) = Some (v, r)"
    if "(k, t, v) \<in> set ?kvs" and "7 + length (hotkeys c) \<le> m" for k t v m r
  proof -
    from that(2) obtain m' where "m = Suc m'" and "6 + length (hotkeys c) \<le> m'" by (cases m) auto
    with that(1) show ?thesis
      by (auto simp: parse_value_string parse_value_bool parse_value_hotkeys)
  qed
  have "parse_members n
           (newline_indent i (Suc 0)
              @ join (CHR '','' # newline_indent i (Suc 0)) (map (\<lambda>(k, t, v). json_member k t) ?kvs)
              @ newline_indent i 0 @ CHR ''}'' # rest) []
         = Some (JObject (rev [] @ map (\<lambda>(k, t, v). (k, v)) ?kvs), rest)"
    using assms by (intro parse_members_join [where ?f0.0 = "7 + length (hotkeys c)"] vals) simp_all
  then have members: "parse_members n
           (newline_indent i (Suc 0)
              @ join (CHR '','' # newline_indent i (Suc 0))
                  [json_member ''shelly_ip'' (json_string (shelly_ip c)),
                   json_member ''autostart'' (json_bool (autostart c)),
                   json_member ''minimize_to_tray'' (json_bool (minimize_to_tray c)),
                   json_member ''hotkeys'' ?array]
              @ newline_indent i 0 @ CHR ''}'' # rest) []
         = Some (config_tree c, rest)"
    by (simp add: config_tree_def)
  obtain y where first: "skip_ws (newline_indent i (Suc 0)
              @ join (CHR '','' # newline_indent i (Suc 0))
                  [json_member ''shelly_ip'' (json_string (shelly_ip c)),
                   json_member ''autostart'' (json_bool (autostart c)),
                   json_member ''minimize_to_tray'' (json_bool (minimize_to_tray c)),
                   json_member ''hotkeys'' ?array]
              @ newline_indent i 0 @ CHR ''}'' # rest)
            = CHR 0x22 # y"
    by (simp add: skip_ws_newline_indent json_member_def json_string_def skip_ws_other is_ws_def)
  have open_brace: "skip_ws (CHR ''{'' # x) = CHR ''{'' # x" for x
    by (simp add: skip_ws_other is_ws_def)
  have shape: "json_dumps c i =
      CHR ''{'' # newline_indent i (Suc 0)
        @ join (CHR '','' # newline_indent i (Suc 0))
            [json_member ''shelly_ip'' (json_string (shelly_ip c)),
             json_member ''autostart'' (json_bool (autostart c)),
             json_member ''minimize_to_tray'' (json_bool (minimize_to_tray c)),
             json_member ''hotkeys'' ?array]
        @ newline_indent i 0 @ [CHR ''}'']"
    by (simp add: json_dumps_def json_container_def [of "CHR ''{''" "CHR ''}''"] del: join.simps)
  show ?thesis
    unfolding shape
    using members first
    by (simp add: open_brace parse_value.simps del: join.simps)
qed

lemma length_join: "\<forall>x \<in> set xs. x \<noteq> [] \<Longrightarrow> length xs \<le> length (join sep xs)"
proof (induction sep xs rule: join.induct)
  case (1 sep)
  then show ?case by simp
next
  case (2 sep x)
  then show ?case by (cases x) simp_all
next
  case (3 sep x y ys)
  then show ?case by (cases x) simp_all
qed

lemma length_hotkeys_array:
  "length hs \<le> length (json_container CHR ''['' CHR '']'' i l (map (json_hotkey i l') hs))"
proof -
  have "json_hotkey i l' h \<noteq> []" for h
    using json_hotkey_first [of i l' h] by auto
  then have "\<forall>x \<in> set (map (json_hotkey i l') hs). x \<noteq> []"
    by simp
  from length_join [OF this, of "CHR '','' # newline_indent i (Suc l)"]
  show ?thesis by (simp add: json_container_def)
qed

lemma length_json_dumps: "12 + length (hotkeys c) \<le> length (json_dumps c i)"
  using length_hotkeys_array [of "hotkeys c" i 1 2]
  by (simp add: json_dumps_def json_container_def json_member_def json_string_def)

lemma json_loads_tree_dumps: "json_loads_tree (json_dumps c i) = Some (config_tree c)"
proof -
  obtain n where n: "length (json_dumps c i) = Suc n" and "11 + length (hotkeys c) \<le> n"
    using length_json_dumps [of c i] by (cases "length (json_dumps c i)") auto
  then have "parse_value (length (json_dumps c i)) (json_dumps c i @ []) = Some (config_tree c, [])"
    by (simp only: n parse_value_config)
  then show ?thesis
    by (simp add: json_loads_tree_def skip_ws_def)
qed

lemma hotkey_of_json_tree: "hotkey_of_json (hotkey_tree h) = Some h"
  by (simp add: hotkey_of_json_def hotkey_tree_def member_str_def)

lemma those_hotkeys: "those (map hotkey_of_json (map hotkey_tree hs)) = Some hs"
  by (induction hs) (simp_all add: hotkey_of_json_tree)

lemma config_of_json_tree: "config_of_json (config_tree c) = Some c"
  using those_hotkeys [of "hotkeys c"]
  by (simp add: config_of_json_def config_tree_def member_str_def member_bool_def)

lemma json_loads_dumps: "json_loads (json_dumps c i) = Some c"
  by (simp add: json_loads_def json_loads_tree_dumps config_of_json_tree)


section \<open>Configuration store: saving what was loaded\<close>

text \<open>After the constructor the widgets show the loaded configuration.\<close>

lemma init_fields:
  "config (init k jl f) = load_config jl f"
  "disk (init k jl f) = f"
  "ip_input (init k jl f) = shelly_ip (load_config jl f)"
  "autostart_checkbox (init k jl f) = autostart (load_config jl f)"
  "minimize_to_tray_checkbox (init k jl f) = minimize_to_tray (load_config jl f)"
  by (simp_all add: init_def init_ui_def update_hotkeys_table_def setup_shortcuts_def setup_tray_def)

lemma save_settings_disk:
  assumes "ip_input s = shelly_ip (config s)"
    and "autostart_checkbox s = autostart (config s)"
    and "minimize_to_tray_checkbox s = minimize_to_tray (config s)"
    and "ow (disk s) (jd (config s) 2) = Written"
  shows "disk (save_settings jd ow pa s) = Contents (jd (config s) 2)"
  using assms
  by (simp add: save_settings_def save_config_def configure_autostart_def Let_def split: option.splits)

lemma run_save_settings:
  assumes "fs_open_w E f (lib_json_dump E (load_config (lib_json_load E) f) 2) = Written"
  shows "disk (run E f [SaveSettings]) = Contents (lib_json_dump E (load_config (lib_json_load E) f) 2)"
  unfolding run_def using assms
  by (simp add: save_settings_disk init_fields)

lemma save_load_twice:
  assumes "c = load_config (lib_json_load E) f"
    and "txt = lib_json_dump E c 2"
    and "fs_open_w E f txt = Written"
    and "fs_open_w E (Contents txt) txt = Written"
    and "lib_json_load E txt = Some c"
  shows "disk (run E f [SaveSettings]) = Contents txt
         \<and> disk (run E (disk (run E f [SaveSettings])) [SaveSettings]) = disk (run E f [SaveSettings])"
proof -
  have first: "disk (run E f [SaveSettings]) = Contents txt"
    using assms by (simp add: run_save_settings)
  have again: "load_config (lib_json_load E) (Contents txt) = c"
    using assms by (simp add: load_config_def)
  have "disk (run E (Contents txt) [SaveSettings]) = Contents txt"
    using assms again by (simp add: run_save_settings)
  with first show ?thesis by simp
qed

text \<open>
  Claim C7. Start the program on any configuration file and save the settings without an
  edit; start it again on the file just written and save again. When both writes succeed
  and the decoder reads the written text back as the configuration it encodes, the second
  file is the first, character by character, and it is the encoder's text for the loaded
  configuration with \<open>indent=2\<close>.
\<close>

theorem save_load_idempotent:
  assumes "c = load_config (lib_json_load E) f"
    and "txt = lib_json_dump E c 2"
    and "fs_open_w E f txt = Written"
    and "fs_open_w E (Contents txt) txt = Written"
    and "lib_json_load E txt = Some c"
  shows "disk (run E f [SaveSettings]) = Contents txt
         \<and> disk (run E (disk (run E f [SaveSettings])) [SaveSettings]) = disk (run E f [SaveSettings])"
  using assms by (rule save_load_twice)

lemma example_env_fields:
  "toolkit_QKeySequence example_env = (\<lambda>t. t)"
  "net_requests_get example_env = (\<lambda>r. Status 200)"
  "lib_json_load example_env = json_loads"
  "lib_json_dump example_env = json_dumps"
  "fs_open_w example_env = (\<lambda>d t. Written)"
  "os_autostart example_env = (\<lambda>b. None)"
  by (simp_all add: example_env_def)

text \<open>
  Without a configuration file, in the example environment: the file written is the
  text below, and writing it again after a restart gives the same text.
\<close>

lemma json_dumps_default:
  \<open>json_dumps default_config 2 =
     ''{\<newline>  "shelly_ip": "192.168.1.100",\<newline>  "autostart": false,\<newline>  "minimize_to_tray": true,\<newline>  "hotkeys": [\<newline>    {\<newline>      "name": "Toggle Light",\<newline>      "shortcut": "Ctrl+Alt+L",\<newline>      "endpoint": "relay/0",\<newline>      "action": "toggle"\<newline>    }\<newline>  ]\<newline>}''\<close>
  by code_simp

theorem save_load_idempotent_witness:
  "disk (run example_env Missing [SaveSettings]) = Contents (json_dumps default_config 2)
   \<and> disk (run example_env (disk (run example_env Missing [SaveSettings])) [SaveSettings])
       = disk (run example_env Missing [SaveSettings])"
proof -
  have c: "default_config = load_config (lib_json_load example_env) Missing"
    by (simp add: load_config_def)
  have t: "json_dumps default_config 2 = lib_json_dump example_env default_config 2"
    by (simp add: example_env_fields)
  have w1: "fs_open_w example_env Missing (json_dumps default_config 2) = Written"
    by (simp add: example_env_fields)
  have w2: "fs_open_w example_env (Contents (json_dumps default_config 2)) (json_dumps default_config 2) = Written"
    by (simp add: example_env_fields)
  have r: "lib_json_load example_env (json_dumps default_config 2) = Some default_config"
    by (simp add: example_env_fields json_loads_dumps)
  show ?thesis
    by (rule save_load_idempotent [OF c t w1 w2 r])
qed

text \<open>
  In the example environment the conditions hold whatever the file is: the file written is
  the encoder's text of the loaded configuration, and a second round writes it again.
\<close>

lemma save_load_example:
  "disk (run example_env f [SaveSettings]) =
     Contents (json_dumps (load_config json_loads f) 2)
   \<and> disk (run example_env (disk (run example_env f [SaveSettings])) [SaveSettings])
       = disk (run example_env f [SaveSettings])"
  by (rule save_load_twice [where c = "load_config json_loads f"])
     (simp_all add: example_env_fields json_loads_dumps)


section \<open>Removing a hotkey: the list and the registry\<close>

text \<open>Runs of the program in the example environment.\<close>

lemmas step_defs =
  run_def add_hotkey_def remove_hotkey_def hotkey_cell_changed_def ip_text_changed_def
  item_def set_item_def set_field_def pop_def new_hotkey_def example_env_def
  window_shortcuts_def window_tray_icons_def

lemma run_add_hotkey:
  "run example_env Missing [AddHotkey] =
     \<lparr>config = default_config\<lparr>hotkeys := hotkeys default_config @ [new_hotkey]\<rparr>,
      ip_input = ''192.168.1.100'',
      autostart_checkbox = False,
      minimize_to_tray_checkbox = True,
      hotkeys_table = [[''Toggle Light'', ''Ctrl+Alt+L'', ''relay/0'', ''toggle''],
                       [''New Hotkey'', ''Ctrl+Alt+N'', ''relay/0'', ''toggle'']],
      shortcuts = [\<lparr>key = ''Ctrl+Alt+L'', enabled = True, activated = (''relay/0'', ''toggle'')\<rparr>,
                   \<lparr>key = ''Ctrl+Alt+N'', enabled = True, activated = (''relay/0'', ''toggle'')\<rparr>],
      released_shortcuts = [\<lparr>key = ''Ctrl+Alt+L'', enabled = False, activated = (''relay/0'', ''toggle'')\<rparr>],
      tray_icon = Some \<lparr>visible = True,
                         context_menu = [ShowAction, Separator,
                            DeviceAction ''Toggle Light (toggle)'' ''relay/0'' ''toggle'',
                            DeviceAction ''New Hotkey (toggle)'' ''relay/0'' ''toggle'',
                            Separator, QuitAction]\<rparr>,
      released_tray_icons = [\<lparr>visible = True,
                         context_menu = [ShowAction, Separator,
                            DeviceAction ''Toggle Light (toggle)'' ''relay/0'' ''toggle'',
                            Separator, QuitAction]\<rparr>],
      notifications = [],
      dialogs = [],
      sent = [],
      disk = Missing\<rparr>"
  by (simp add: step_defs init_missing program_defs)

lemma pop_nth: "j < length xs - 1 \<Longrightarrow> i < length xs \<Longrightarrow> pop i xs ! j = xs ! (if j < i then j else Suc j)"
  by (auto simp: pop_def nth_append min_def)

lemma rebuilt_shortcuts:
  "shortcuts (setup_tray (setup_shortcuts k s)) =
     map (\<lambda>h. \<lparr>key = k (shortcut h), enabled = True, activated = (endpoint h, action h)\<rparr>) (hotkeys (config s))"
  "released_shortcuts (setup_tray (setup_shortcuts k s)) =
     released_shortcuts s @ map (\<lambda>q. q\<lparr>enabled := False\<rparr>) (shortcuts s)"
  "config (setup_tray (setup_shortcuts k s)) = config s"
  by (simp_all add: setup_tray_def setup_shortcuts_def create_shortcuts_map disable_shortcuts_map)

text \<open>
  Claim C6. In any state the program can reach, removing the hotkey of the selected row
  \<open>i\<close>, with \<open>i\<close> below the number \<open>n\<close> of hotkeys, leaves \<open>n - 1\<close> hotkeys:
  the ones before \<open>i\<close> and the ones after it, in their order. After the rebuild, if no
  remaining hotkey has the key sequence of the removed one, no enabled shortcut object of
  the window, old or new, has that key sequence.
\<close>

theorem remove_hotkey_removes:
  assumes "i < length (hotkeys (config (run E f evs)))"
  shows "let k = toolkit_QKeySequence E;
             s = run E f evs;
             hs = hotkeys (config s);
             s' = remove_hotkey k s (i # rest);
             hs' = hotkeys (config s')
         in hs' = take i hs @ drop (Suc i) hs
            \<and> length hs' = length hs - 1
            \<and> (\<forall>j < length hs'. hs' ! j = hs ! (if j < i then j else Suc j))
            \<and> ((\<forall>h \<in> set hs'. k (shortcut h) \<noteq> k (shortcut (hs ! i)))
                 \<longrightarrow> (\<forall>q \<in> set (window_shortcuts s').
                        enabled q \<longrightarrow> key q \<noteq> k (shortcut (hs ! i))))"
proof -
  define k where "k = toolkit_QKeySequence E"
  define s where "s = run E f evs"
  define hs where "hs = hotkeys (config s)"
  define s0 where "s0 = update_hotkeys_table (s\<lparr>config := (config s)\<lparr>hotkeys := pop i hs\<rparr>\<rparr>)"
  define s' where "s' = remove_hotkey k s (i # rest)"
  have i: "i < length hs"
    using assms by (simp add: hs_def s_def)
  have s': "s' = setup_tray (setup_shortcuts k s0)"
    using i by (simp add: s'_def remove_hotkey_def s0_def hs_def)
  have inv: "registry_inv k s"
    unfolding k_def s_def by (rule registry_inv_run)
  have hs': "hotkeys (config s') = pop i hs"
    by (simp add: s' rebuilt_shortcuts s0_def update_hotkeys_table_def)
  have len: "length (pop i hs) = length hs - 1"
    using i by (simp add: pop_def)
  have nth: "\<forall>j < length (pop i hs). pop i hs ! j = hs ! (if j < i then j else Suc j)"
    using i len by (simp add: pop_nth)
  have released: "released_shortcuts s' = released_shortcuts s @ map (\<lambda>q. q\<lparr>enabled := False\<rparr>) (shortcuts s)"
    by (simp add: s' rebuilt_shortcuts s0_def update_hotkeys_table_def)
  have current: "shortcuts s' =
      map (\<lambda>h. \<lparr>key = k (shortcut h), enabled = True, activated = (endpoint h, action h)\<rparr>) (pop i hs)"
    by (simp add: s' rebuilt_shortcuts s0_def update_hotkeys_table_def)
  have old_off: "\<not> enabled q" if "q \<in> set (released_shortcuts s')" for q
    using that inv by (auto simp: released registry_inv_def list_all_iff)
  have live: "\<forall>q \<in> set (window_shortcuts s'). enabled q \<longrightarrow> key q \<noteq> k (shortcut (hs ! i))"
    if "\<forall>h \<in> set (pop i hs). k (shortcut h) \<noteq> k (shortcut (hs ! i))"
    using that old_off by (auto simp: current window_shortcuts_def)
  show ?thesis
    unfolding Let_def k_def [symmetric] s_def [symmetric] hs_def [symmetric] s'_def [symmetric] hs'
    using len nth live by (simp add: pop_def)
qed

theorem remove_hotkey_removes_witness:
  "hotkeys (config (remove_hotkey (\<lambda>t. t) (run example_env Missing [AddHotkey]) [0])) = [new_hotkey]
   \<and> filter enabled (window_shortcuts (remove_hotkey (\<lambda>t. t) (run example_env Missing [AddHotkey]) [0]))
       = [\<lparr>key = ''Ctrl+Alt+N'', enabled = True, activated = (''relay/0'', ''toggle'')\<rparr>]"
  using remove_hotkey_removes [of 0 example_env Missing "[AddHotkey]" "[]"]
  by (simp add: run_add_hotkey remove_hotkey_def pop_def new_hotkey_def default_config_def
      update_hotkeys_table_def setup_shortcuts_def setup_tray_def window_shortcuts_def)


section \<open>Rebuilding the tray\<close>

text \<open>
  In every state the program can reach, the enabled shortcut objects of the window are the
  ones of \<open>self.shortcuts\<close>: one per hotkey of the configuration, in order.
\<close>

lemma live_shortcuts:
  "filter enabled (window_shortcuts (run E f evs)) =
     map (\<lambda>h. \<lparr>key = toolkit_QKeySequence E (shortcut h), enabled = True,
                 activated = (endpoint h, action h)\<rparr>)
       (hotkeys (config (run E f evs)))"
proof -
  have inv: "registry_inv (toolkit_QKeySequence E) (run E f evs)"
    by (rule registry_inv_run)
  then have old: "filter enabled (released_shortcuts (run E f evs)) = []"
    by (auto simp: registry_inv_def list_all_iff filter_empty_conv)
  from inv have new: "shortcuts (run E f evs) =
      map (\<lambda>h. \<lparr>key = toolkit_QKeySequence E (shortcut h), enabled = True,
                  activated = (endpoint h, action h)\<rparr>)
        (hotkeys (config (run E f evs)))"
    by (simp add: registry_inv_def create_shortcuts_map)
  have all_on: "filter enabled
      (map (\<lambda>h. \<lparr>key = toolkit_QKeySequence E (shortcut h), enabled = True,
                  activated = (endpoint h, action h)\<rparr>) hs) =
      map (\<lambda>h. \<lparr>key = toolkit_QKeySequence E (shortcut h), enabled = True,
                  activated = (endpoint h, action h)\<rparr>) hs" for hs
    by (induction hs) simp_all
  have "filter enabled (shortcuts (run E f evs)) = shortcuts (run E f evs)"
    using all_on [of "hotkeys (config (run E f evs))"] by (simp only: new [symmetric])
  with old new show ?thesis
    by (simp only: window_shortcuts_def filter_append append_Nil)
qed

text \<open>
  Every call of \<open>setup_tray\<close> adds a visible tray icon to the ones of the window and
  changes none of them.
\<close>

lemma setup_tray_appends:
  "window_tray_icons (setup_tray s) =
     window_tray_icons s @
       [\<lparr>visible = True,
         context_menu = device_actions (hotkeys (config s)) [ShowAction, Separator]
                          @ [Separator, QuitAction]\<rparr>]"
  by (simp add: window_tray_icons_def setup_tray_def split: option.splits)

text \<open>
  Claim C1. A rebuild is to deactivate every binding of the previous list of hotkeys
  before it installs the new ones. \<open>setup_shortcuts\<close> does so for the shortcut objects
  (see \<open>registry_inv\<close>). \<open>setup_tray\<close> does not for the tray: started without a
  configuration file, after the action of the only hotkey is edited from \<open>toggle\<close> to
  \<open>off\<close>, the tray icon created at start is still visible, and its menu still has the
  entry that calls \<open>toggle_shelly_device\<close> with \<open>toggle\<close>: choosing it sends
  \<open>turn=toggle\<close> to the device.
\<close>

theorem rebuild_keeps_previous_tray_icon:
  "let s = run example_env Missing [EditCell 0 3 ''off''];
       s' = run example_env Missing [EditCell 0 3 ''off'', TriggerMenu 0 2]
   in hotkeys (config s) =
        [\<lparr>name = ''Toggle Light'', shortcut = ''Ctrl+Alt+L'', endpoint = ''relay/0'', action = ''off''\<rparr>]
      \<and> tray_icon s =
          Some \<lparr>visible = True,
                context_menu = [ShowAction, Separator,
                   DeviceAction ''Toggle Light (off)'' ''relay/0'' ''off'', Separator, QuitAction]\<rparr>
      \<and> released_tray_icons s =
          [\<lparr>visible = True,
            context_menu = [ShowAction, Separator,
               DeviceAction ''Toggle Light (toggle)'' ''relay/0'' ''toggle'', Separator, QuitAction]\<rparr>]
      \<and> released_shortcuts s =
          [\<lparr>key = ''Ctrl+Alt+L'', enabled = False, activated = (''relay/0'', ''toggle'')\<rparr>]
      \<and> shortcuts s =
          [\<lparr>key = ''Ctrl+Alt+L'', enabled = True, activated = (''relay/0'', ''off'')\<rparr>]
      \<and> sent s' = [GET ''http://192.168.1.100/relay/0?turn=toggle'' None]"
  by (simp add: step_defs init_missing program_defs toggle_shelly_device_def show_message_def)

section \<open>The device address\<close>

text \<open>
  Claim C8, as stated: the device address is never empty, a default being substituted.
  It fails when the user clears the IP field: the handler stores the empty text.
\<close>

theorem empty_address_counterexample:
  "shelly_ip (config (run example_env Missing [EditIp ''''])) = ''''"
  by (simp add: step_defs)

text \<open>
  Claim C8, amended. In every state the program can reach, the device address of the
  configuration is the text of the IP field; after an edit of the field it is the text
  entered, whatever it is; started without a configuration file it is \<open>192.168.1.100\<close>.
\<close>

theorem device_address_is_ip_field:
  "shelly_ip (config (run E f evs)) = ip_input (run E f evs)
   \<and> shelly_ip (config (run E f (evs @ [EditIp t]))) = t
   \<and> shelly_ip (config (run E Missing [])) = ''192.168.1.100''"
proof -
  have "registry_inv (toolkit_QKeySequence E) (run E f evs)"
    by (rule registry_inv_run)
  then have "shelly_ip (config (run E f evs)) = ip_input (run E f evs)"
    by (simp add: registry_inv_def)
  moreover have "shelly_ip (config (run E f (evs @ [EditIp t]))) = t"
    by (simp add: run_def ip_text_changed_def)
  moreover have "shelly_ip (config (run E Missing [])) = ''192.168.1.100''"
    by (simp add: run_def init_missing default_config_def)
  ultimately show ?thesis by simp
qed

end
